theory Spec2Isabelle
  imports Complex_Main "HOL-Library.Word"
begin

section \<open>X-Mem: the latency worker (src/LatencyWorker.cpp)\<close>

text \<open>
  The theory embeds \<^verbatim>\<open>LatencyWorker::run()\<close>. The method is one straight line of
  calls into the platform (lock, affinity, priority, timer, kernels) around the two
  phases of the measurement. Everything the method calls but does not define is a field
  of the environment record \<open>env\<close>; every call and every store to a result member is
  logged as an event, in program order, so that properties about order can be stated on
  the log.
\<close>

subsection \<open>Data\<close>

type_synonym u64 = "64 word"
type_synonym addr = "64 word"  \<comment> \<open>\<^verbatim>\<open>void*\<close>, \<^verbatim>\<open>uintptr_t*\<close> and \<^verbatim>\<open>size_t\<close> on the 64-bit targets\<close>
type_synonym fptr = "64 word"  \<comment> \<open>\<^verbatim>\<open>RandomFunction\<close>: a code address, 0 is NULL\<close>
type_synonym cpu = "32 word"   \<comment> \<open>\<^verbatim>\<open>int32_t\<close>\<close>

text \<open>The two builds: exactly one of the two macros is defined.\<close>

datatype mode = USE_TIME_BASED_BENCHMARKS | USE_SIZE_BASED_BENCHMARKS

text \<open>Calling a NULL function pointer ends the process; it is the only failure of the method.\<close>

datatype error = NullFunctionCall

text \<open>The result members of the worker object, named as the stores of lines 198 to 204.\<close>

datatype result_member =
    F_adjusted_ticks | F_elapsed_ticks | F_elapsed_dummy_ticks | F_warning
  | F_bytes_per_pass | F_completed | F_passes

datatype message = FailedToLockThread cpu | FailedToBoost | FailedToRevert

datatype event =
    AcquireLock bool  \<comment> \<open>\<^verbatim>\<open>_acquireLock(-1)\<close> and what it returned\<close>
  | ReleaseLock
  | LockThreadToCpu cpu bool
  | UnlockThread  \<comment> \<open>\<^verbatim>\<open>unlock_thread_to_numa_node()\<close>\<close>
  | BoostPriority bool
  | RevertPriority bool
  | Cerr message
  | SequentialRead addr addr  \<comment> \<open>\<^verbatim>\<open>forwSequentialRead_Word64(start, end)\<close>\<close>
  | StartTimer u64
  | StopTimer u64
  | Kernel fptr addr u64  \<comment> \<open>\<^verbatim>\<open>(*kernel_fptr)(next_address, &next_address, n)\<close>\<close>
  | DummyKernel fptr addr u64
  | Store result_member

text \<open>
  The members of the object that \<open>run\<close> reads (\<open>config\<close>) and those it writes (\<open>result\<close>).
  A member \<^verbatim>\<open>_x\<close> of the source is the field \<open>this_x\<close>.
\<close>

record config =
  this_mem_array :: addr
  this_len :: u64
  this_passes_per_iteration :: u64
  this_cpu_affinity :: cpu
  this_kernel_fptr :: fptr
  this_kernel_dummy_fptr :: fptr

record result =
  this_adjusted_ticks :: u64
  this_elapsed_ticks :: u64
  this_elapsed_dummy_ticks :: u64
  this_warning :: bool
  this_bytes_per_pass :: u64
  this_completed :: bool
  this_passes :: u64

text \<open>
  What the method uses and this file does not define. The timer is a sequence of counter
  readings, one per call of \<^verbatim>\<open>start_timer\<close> or \<^verbatim>\<open>stop_timer\<close>. \<open>code\<close> gives the pointer a
  kernel leaves in \<^verbatim>\<open>next_address\<close>. \<open>controller\<close> is a write of the owning thread to the
  configuration members, placed right after the snapshot's critical section. In the
  size-based build the identifiers \<^verbatim>\<open>mem_array\<close> and \<^verbatim>\<open>len\<close> are not declared in \<open>run\<close>: what
  they are bound to comes from outside the file (\<open>ext_mem_array\<close>, \<open>ext_len\<close>).
\<close>

record env =
  acquire_snapshot :: bool
  acquire_publish :: bool
  lock_thread_to_cpu :: "cpu \<Rightarrow> bool"
  boostSchedulingPriority :: bool
  revertSchedulingPriority :: bool
  timer :: "nat \<Rightarrow> u64"
  code :: "fptr \<Rightarrow> addr \<Rightarrow> u64 \<Rightarrow> addr"
  controller :: "config \<Rightarrow> config"
  g_ticks_per_sec :: u64
  BENCHMARK_DURATION_SEC :: u64
  MIN_ELAPSED_TICKS :: u64
  LATENCY_BENCHMARK_UNROLL_LENGTH :: u64
  ext_mem_array :: addr
  ext_len :: u64

text \<open>The object, the locals of \<open>run\<close> (lines 77 to 94 and 114), and the log.\<close>

record frame =
  cfg :: config
  res :: result
  cpu_affinity :: cpu
  kernel_fptr :: fptr
  kernel_dummy_fptr :: fptr
  next_address :: addr
  bytes_per_pass :: u64
  passes :: u64
  p :: u64
  start_tick :: u64
  stop_tick :: u64
  elapsed_ticks :: u64
  elapsed_dummy_ticks :: u64
  adjusted_ticks :: u64
  warning :: bool
  mem_array :: addr
  len :: u64
  target_ticks :: u64
  locked :: bool
  clock :: nat
  trace :: "event list"

subsection \<open>Primitives\<close>

definition emit :: "event \<Rightarrow> frame \<Rightarrow> frame" where
  "emit e s = s\<lparr>trace := trace s @ [e]\<rparr>"

definition start_timer :: "env \<Rightarrow> frame \<Rightarrow> frame" where
  "start_timer E s =
     emit (StartTimer (timer E (clock s)))
       (s\<lparr>start_tick := timer E (clock s), clock := clock s + 1\<rparr>)"

definition stop_timer :: "env \<Rightarrow> frame \<Rightarrow> frame" where
  "stop_timer E s =
     emit (StopTimer (timer E (clock s)))
       (s\<lparr>stop_tick := timer E (clock s), clock := clock s + 1\<rparr>)"

text \<open>\<^verbatim>\<open>(*kernel_fptr)(next_address, &next_address, n)\<close> and the same through the dummy pointer.\<close>

definition call_kernel :: "env \<Rightarrow> u64 \<Rightarrow> frame \<Rightarrow> error + frame" where
  "call_kernel E n s =
     (if kernel_fptr s = 0 then Inl NullFunctionCall
      else Inr (emit (Kernel (kernel_fptr s) (next_address s) n)
                  (s\<lparr>next_address := code E (kernel_fptr s) (next_address s) n\<rparr>)))"

definition call_kernel_dummy :: "env \<Rightarrow> u64 \<Rightarrow> frame \<Rightarrow> error + frame" where
  "call_kernel_dummy E n s =
     (if kernel_dummy_fptr s = 0 then Inl NullFunctionCall
      else Inr (emit (DummyKernel (kernel_dummy_fptr s) (next_address s) n)
                  (s\<lparr>next_address := code E (kernel_dummy_fptr s) (next_address s) n\<rparr>)))"

text \<open>
  Modelled from the spec: the macro \<^verbatim>\<open>UNROLL256\<close> of common.h is not among the sources; the
  spec has it as a fixed unrolled batch of 256 invocations of its argument.
\<close>

fun repeat :: "nat \<Rightarrow> (frame \<Rightarrow> error + frame) \<Rightarrow> frame \<Rightarrow> error + frame" where
  "repeat 0 f s = Inr s"
| "repeat (Suc n) f s = (case f s of Inl e \<Rightarrow> Inl e | Inr s' \<Rightarrow> repeat n f s')"

definition UNROLL256 :: "(frame \<Rightarrow> error + frame) \<Rightarrow> frame \<Rightarrow> error + frame" where
  "UNROLL256 f = repeat 256 f"

text \<open>
  The implicit conversion of a \<^verbatim>\<open>uint64_t\<close> to \<^verbatim>\<open>double\<close> in line 180: the nearest value
  with a 53-bit significand, ties to even. \<open>excess n\<close> is the number of low bits of \<open>n\<close>
  that do not fit into the significand.
\<close>

fun excess :: "nat \<Rightarrow> nat" where
  "excess n = (if n < 2 ^ 53 then 0 else Suc (excess (n div 2)))"

declare excess.simps [simp del]

definition uint64_to_double :: "u64 \<Rightarrow> real" where
  "uint64_to_double x =
     (let n = unat x;
          e = excess n;
          q = n div 2 ^ e;
          r = n mod 2 ^ e
      in real ((if 2 ^ e < 2 * r \<or> (2 * r = 2 ^ e \<and> odd q) then q + 1 else q) * 2 ^ e))"

subsection \<open>The phases of \<open>run\<close>\<close>

text \<open>Lines 77 to 94.\<close>

definition init_frame :: "mode \<Rightarrow> env \<Rightarrow> config \<Rightarrow> result \<Rightarrow> frame" where
  "init_frame m E c r =
     \<lparr>cfg = c, res = r, cpu_affinity = 0, kernel_fptr = 0, kernel_dummy_fptr = 0,
      next_address = 0, bytes_per_pass = 0, passes = 0, p = 0, start_tick = 0,
      stop_tick = 0, elapsed_ticks = 0, elapsed_dummy_ticks = 0, adjusted_ticks = 0,
      warning = False,
      mem_array = (case m of USE_TIME_BASED_BENCHMARKS \<Rightarrow> 0
                   | USE_SIZE_BASED_BENCHMARKS \<Rightarrow> ext_mem_array E),
      len = (case m of USE_TIME_BASED_BENCHMARKS \<Rightarrow> 0
             | USE_SIZE_BASED_BENCHMARKS \<Rightarrow> ext_len E),
      target_ticks = g_ticks_per_sec E * BENCHMARK_DURATION_SEC E,
      locked = False, clock = 0, trace = []\<rparr>"

text \<open>Lines 97 to 111.\<close>

definition snapshot :: "mode \<Rightarrow> env \<Rightarrow> frame \<Rightarrow> frame" where
  "snapshot m E s =
     (if acquire_snapshot E then
        (let s1 = emit (AcquireLock True) s;
             s2 = (case m of
                     USE_TIME_BASED_BENCHMARKS \<Rightarrow>
                       s1\<lparr>mem_array := this_mem_array (cfg s1), len := this_len (cfg s1)\<rparr>
                   | USE_SIZE_BASED_BENCHMARKS \<Rightarrow>
                       s1\<lparr>passes := this_passes_per_iteration (cfg s1)\<rparr>);
             s3 = s2\<lparr>bytes_per_pass := LATENCY_BENCHMARK_UNROLL_LENGTH E * 8,
                     cpu_affinity := this_cpu_affinity (cfg s2),
                     kernel_fptr := this_kernel_fptr (cfg s2),
                     kernel_dummy_fptr := this_kernel_dummy_fptr (cfg s2)\<rparr>
         in emit ReleaseLock s3)
      else emit (AcquireLock False) s)"

text \<open>The owning thread writes the configuration while the worker does not hold the lock.\<close>

definition controller_writes :: "env \<Rightarrow> frame \<Rightarrow> frame" where
  "controller_writes E s = s\<lparr>cfg := controller E (cfg s)\<rparr>"

text \<open>Lines 113 to 116.\<close>

definition set_affinity :: "env \<Rightarrow> frame \<Rightarrow> frame" where
  "set_affinity E s =
     (let s1 = emit (LockThreadToCpu (cpu_affinity s) (lock_thread_to_cpu E (cpu_affinity s)))
                 (s\<lparr>locked := lock_thread_to_cpu E (cpu_affinity s)\<rparr>)
      in if \<not> locked s1 then emit (Cerr (FailedToLockThread (cpu_affinity s1))) s1 else s1)"

text \<open>Lines 118 to 127.\<close>

definition boost_priority :: "env \<Rightarrow> frame \<Rightarrow> frame" where
  "boost_priority E s =
     (let s1 = emit (BoostPriority (boostSchedulingPriority E)) s
      in if \<not> boostSchedulingPriority E then emit (Cerr FailedToBoost) s1 else s1)"

text \<open>Lines 129 to 134.\<close>

definition prime_once :: "frame \<Rightarrow> frame" where
  "prime_once s = emit (SequentialRead (mem_array s) (mem_array s + len s)) s"

definition prime_memory :: "frame \<Rightarrow> frame" where
  "prime_memory s = (prime_once ^^ 4) s"

text \<open>
  Lines 139 to 146. The loop runs until the accumulated ticks reach the target, which a
  timer that stands still never lets happen: the first argument bounds the number of
  batches, and \<open>None\<close> says that the bound was reached with the loop still running.
\<close>

fun real_loop :: "nat \<Rightarrow> env \<Rightarrow> frame \<Rightarrow> (error + frame) option" where
  "real_loop 0 E s = (if elapsed_ticks s < target_ticks s then None else Some (Inr s))"
| "real_loop (Suc k) E s =
     (if elapsed_ticks s < target_ticks s then
        (case UNROLL256 (call_kernel E 0) (start_timer E s) of
           Inl e \<Rightarrow> Some (Inl e)
         | Inr s1 \<Rightarrow>
             (let s2 = stop_timer E s1;
                  s3 = s2\<lparr>elapsed_ticks := elapsed_ticks s2 + (stop_tick s2 - start_tick s2)\<rparr>
              in real_loop k E (s3\<lparr>passes := passes s3 + 256\<rparr>)))
      else Some (Inr s))"

text \<open>Lines 149 to 156.\<close>

fun dummy_loop :: "nat \<Rightarrow> env \<Rightarrow> frame \<Rightarrow> (error + frame) option" where
  "dummy_loop 0 E s = (if p s < passes s then None else Some (Inr s))"
| "dummy_loop (Suc k) E s =
     (if p s < passes s then
        (case UNROLL256 (call_kernel_dummy E 0) (start_timer E s) of
           Inl e \<Rightarrow> Some (Inl e)
         | Inr s1 \<Rightarrow>
             (let s2 = stop_timer E s1;
                  s3 = s2\<lparr>elapsed_dummy_ticks :=
                            elapsed_dummy_ticks s2 + (stop_tick s2 - start_tick s2)\<rparr>
              in dummy_loop k E (s3\<lparr>p := p s3 + 256\<rparr>)))
      else Some (Inr s))"

definition measure_time :: "nat \<Rightarrow> env \<Rightarrow> frame \<Rightarrow> (error + frame) option" where
  "measure_time k E s =
     (case real_loop k E (s\<lparr>next_address := mem_array s\<rparr>) of
        None \<Rightarrow> None
      | Some (Inl e) \<Rightarrow> Some (Inl e)
      | Some (Inr s1) \<Rightarrow> dummy_loop k E (s1\<lparr>next_address := mem_array s1\<rparr>))"

text \<open>Lines 163, 164 and 171, 172: the counted iterations of the size-based build.\<close>

function kernel_for :: "env \<Rightarrow> frame \<Rightarrow> error + frame" where
  "kernel_for E s =
     (if p s < passes s then
        (case call_kernel E (len s) s of
           Inl e \<Rightarrow> Inl e
         | Inr s1 \<Rightarrow> kernel_for E (s1\<lparr>p := p s1 + 1\<rparr>))
      else Inr s)"
  by pat_completeness auto
termination
proof (relation "measure (\<lambda>(E, s). unat (passes s) - unat (p s))")
  show "wf (measure (\<lambda>(E, s). unat (passes s) - unat (p s)))"
    by simp
next
  fix E :: env and s s1 :: frame
  assume lt: "p s < passes s" and call: "call_kernel E (len s) s = Inr s1"
  from call have same: "p s1 = p s" "passes s1 = passes s"
    by (auto simp: call_kernel_def emit_def split: if_splits)
  from lt have "unat (p s) < unat (passes s)"
    by (simp add: word_less_nat_alt)
  moreover have "unat (passes s) < 2 ^ 64"
    using unsigned_less [of "passes s"] by simp
  ultimately have "unat (p s + 1) = unat (p s) + 1"
    by (simp add: unat_word_ariths)
  with lt same show "((E, s1\<lparr>p := p s1 + 1\<rparr>), (E, s)) \<in> measure (\<lambda>(E, s). unat (passes s) - unat (p s))"
    by (simp add: word_less_nat_alt)
qed

function dummy_for :: "env \<Rightarrow> frame \<Rightarrow> error + frame" where
  "dummy_for E s =
     (if p s < passes s then
        (case call_kernel_dummy E (len s) s of
           Inl e \<Rightarrow> Inl e
         | Inr s1 \<Rightarrow> dummy_for E (s1\<lparr>p := p s1 + 1\<rparr>))
      else Inr s)"
  by pat_completeness auto
termination
proof (relation "measure (\<lambda>(E, s). unat (passes s) - unat (p s))")
  show "wf (measure (\<lambda>(E, s). unat (passes s) - unat (p s)))"
    by simp
next
  fix E :: env and s s1 :: frame
  assume lt: "p s < passes s" and call: "call_kernel_dummy E (len s) s = Inr s1"
  from call have same: "p s1 = p s" "passes s1 = passes s"
    by (auto simp: call_kernel_dummy_def emit_def split: if_splits)
  from lt have "unat (p s) < unat (passes s)"
    by (simp add: word_less_nat_alt)
  moreover have "unat (passes s) < 2 ^ 64"
    using unsigned_less [of "passes s"] by simp
  ultimately have "unat (p s + 1) = unat (p s) + 1"
    by (simp add: unat_word_ariths)
  with lt same show "((E, s1\<lparr>p := p s1 + 1\<rparr>), (E, s)) \<in> measure (\<lambda>(E, s). unat (passes s) - unat (p s))"
    by (simp add: word_less_nat_alt)
qed

declare kernel_for.simps [simp del] dummy_for.simps [simp del]

text \<open>Lines 160 to 174.\<close>

definition measure_size :: "env \<Rightarrow> frame \<Rightarrow> error + frame" where
  "measure_size E s =
     (case kernel_for E ((start_timer E (s\<lparr>next_address := mem_array s\<rparr>))\<lparr>p := 0\<rparr>) of
        Inl e \<Rightarrow> Inl e
      | Inr s1 \<Rightarrow>
          (let s2 = stop_timer E s1;
               s3 = s2\<lparr>elapsed_ticks := elapsed_ticks s2 + (start_tick s2 - stop_tick s2)\<rparr>
           in case dummy_for E
                     ((start_timer E (s3\<lparr>next_address := this_mem_array (cfg s3)\<rparr>))\<lparr>p := 0\<rparr>) of
                Inl e \<Rightarrow> Inl e
              | Inr s4 \<Rightarrow>
                  (let s5 = stop_timer E s4
                   in Inr (s5\<lparr>elapsed_dummy_ticks :=
                                elapsed_dummy_ticks s5 + (start_tick s5 - stop_tick s5)\<rparr>))))"

definition run_benchmark :: "nat \<Rightarrow> mode \<Rightarrow> env \<Rightarrow> frame \<Rightarrow> (error + frame) option" where
  "run_benchmark k m E s =
     (case m of
        USE_TIME_BASED_BENCHMARKS \<Rightarrow> measure_time k E s
      | USE_SIZE_BASED_BENCHMARKS \<Rightarrow> Some (measure_size E s))"

text \<open>Lines 177 to 181.\<close>

definition adjust_and_warn :: "env \<Rightarrow> frame \<Rightarrow> frame" where
  "adjust_and_warn E s =
     (let s1 = s\<lparr>adjusted_ticks := elapsed_ticks s - elapsed_dummy_ticks s\<rparr>
      in if elapsed_ticks s1 \<le> elapsed_dummy_ticks s1
            \<or> elapsed_ticks s1 < MIN_ELAPSED_TICKS E
            \<or> uint64_to_double (adjusted_ticks s1) < 0.5 * uint64_to_double (elapsed_ticks s1)
         then s1\<lparr>warning := True\<rparr> else s1)"

text \<open>Lines 183 to 185.\<close>

definition unset_affinity :: "frame \<Rightarrow> frame" where
  "unset_affinity s = (if locked s then emit UnlockThread s else s)"

text \<open>Lines 187 to 194.\<close>

definition revert_priority :: "env \<Rightarrow> frame \<Rightarrow> frame" where
  "revert_priority E s =
     (let s1 = emit (RevertPriority (revertSchedulingPriority E)) s
      in if \<not> revertSchedulingPriority E then emit (Cerr FailedToRevert) s1 else s1)"

text \<open>Lines 196 to 206: each store changes the member and is logged.\<close>

definition store :: "result_member \<Rightarrow> (result \<Rightarrow> result) \<Rightarrow> frame \<Rightarrow> frame" where
  "store f upd s = emit (Store f) (s\<lparr>res := upd (res s)\<rparr>)"

definition publish :: "env \<Rightarrow> frame \<Rightarrow> frame" where
  "publish E s =
     (if acquire_publish E then
        (let s1 = emit (AcquireLock True) s;
             s2 = store F_adjusted_ticks (this_adjusted_ticks_update (\<lambda>_. adjusted_ticks s1)) s1;
             s3 = store F_elapsed_ticks (this_elapsed_ticks_update (\<lambda>_. elapsed_ticks s2)) s2;
             s4 = store F_elapsed_dummy_ticks
                    (this_elapsed_dummy_ticks_update (\<lambda>_. elapsed_dummy_ticks s3)) s3;
             s5 = store F_warning (this_warning_update (\<lambda>_. warning s4)) s4;
             s6 = store F_bytes_per_pass (this_bytes_per_pass_update (\<lambda>_. bytes_per_pass s5)) s5;
             s7 = store F_completed (this_completed_update (\<lambda>_. True)) s6;
             s8 = store F_passes (this_passes_update (\<lambda>_. passes s7)) s7
         in emit ReleaseLock s8)
      else emit (AcquireLock False) s)"

text \<open>What follows the measurement, lines 177 to 206; it has no failure and no loop.\<close>

definition epilogue :: "env \<Rightarrow> frame \<Rightarrow> frame" where
  "epilogue E s = publish E (revert_priority E (unset_affinity (adjust_and_warn E s)))"

text \<open>What precedes it, lines 77 to 134.\<close>

definition prologue :: "mode \<Rightarrow> env \<Rightarrow> config \<Rightarrow> result \<Rightarrow> frame" where
  "prologue m E c r =
     prime_memory (boost_priority E (set_affinity E
       (controller_writes E (snapshot m E (init_frame m E c r)))))"

definition run :: "nat \<Rightarrow> mode \<Rightarrow> env \<Rightarrow> config \<Rightarrow> result \<Rightarrow> (error + frame) option" where
  "run k m E c r =
     (case run_benchmark k m E (prologue m E c r) of
        None \<Rightarrow> None
      | Some (Inl e) \<Rightarrow> Some (Inl e)
      | Some (Inr s) \<Rightarrow> Some (Inr (epilogue E s)))"

subsection \<open>Vocabulary for the properties\<close>

text \<open>Kinds of events.\<close>

fun is_timer :: "event \<Rightarrow> bool" where
  "is_timer (StartTimer _) = True"
| "is_timer (StopTimer _) = True"
| "is_timer _ = False"

fun is_kernel :: "event \<Rightarrow> bool" where
  "is_kernel (Kernel _ _ _) = True"
| "is_kernel _ = False"

fun is_dummy :: "event \<Rightarrow> bool" where
  "is_dummy (DummyKernel _ _ _) = True"
| "is_dummy _ = False"

fun is_read :: "event \<Rightarrow> bool" where
  "is_read (SequentialRead _ _) = True"
| "is_read _ = False"

fun is_store :: "event \<Rightarrow> bool" where
  "is_store (Store _) = True"
| "is_store _ = False"

fun is_revert :: "event \<Rightarrow> bool" where
  "is_revert (RevertPriority _) = True"
| "is_revert _ = False"

text \<open>An event of the measurement: a timer reading or a kernel invocation.\<close>

definition is_measurement :: "event \<Rightarrow> bool" where
  "is_measurement e = (is_timer e \<or> is_kernel e \<or> is_dummy e)"

text \<open>The addresses a pointer chase of \<open>n\<close> steps visits, starting at \<open>a\<close>.\<close>

fun chase :: "(addr \<Rightarrow> addr) \<Rightarrow> nat \<Rightarrow> addr \<Rightarrow> addr list" where
  "chase g 0 a = []"
| "chase g (Suc n) a = a # chase g n (g a)"

text \<open>The ticks of \<open>n\<close> consecutive timed batches, the first one starting at reading \<open>c\<close>.\<close>

definition batch_ticks :: "env \<Rightarrow> nat \<Rightarrow> nat \<Rightarrow> u64" where
  "batch_ticks E c n = (\<Sum>i<n. timer E (c + 2 * i + 1) - timer E (c + 2 * i))"

text \<open>The locals and members that nothing between priming and the subtraction assigns.\<close>

definition kept :: "frame \<Rightarrow> config \<times> result \<times> cpu \<times> fptr \<times> fptr \<times> u64 \<times> u64 \<times> bool \<times> addr \<times> u64 \<times> u64 \<times> bool" where
  "kept s = (cfg s, res s, cpu_affinity s, kernel_fptr s, kernel_dummy_fptr s, bytes_per_pass s,
     adjusted_ticks s, warning s, mem_array s, len s, target_ticks s, locked s)"

text \<open>The condition of line 180.\<close>

definition fishy :: "env \<Rightarrow> u64 \<Rightarrow> u64 \<Rightarrow> u64 \<Rightarrow> bool" where
  "fishy E elapsed dummy adjusted =
     (elapsed \<le> dummy \<or> elapsed < MIN_ELAPSED_TICKS E
      \<or> uint64_to_double adjusted < 0.5 * uint64_to_double elapsed)"

text \<open>
  The body of each timed loop in closed form: the frame after one batch, lines 141 to 145
  for the real kernel and lines 151 to 155 for the dummy.
\<close>

definition real_batch :: "env \<Rightarrow> frame \<Rightarrow> frame" where
  "real_batch E s =
     s\<lparr>next_address := ((\<lambda>a. code E (kernel_fptr s) a 0) ^^ 256) (next_address s),
       start_tick := timer E (clock s), stop_tick := timer E (clock s + 1),
       elapsed_ticks := elapsed_ticks s + (timer E (clock s + 1) - timer E (clock s)),
       passes := passes s + 256,
       clock := clock s + 2,
       trace := trace s @ StartTimer (timer E (clock s))
                  # map (\<lambda>a. Kernel (kernel_fptr s) a 0)
                      (chase (\<lambda>a. code E (kernel_fptr s) a 0) 256 (next_address s))
                  @ [StopTimer (timer E (clock s + 1))]\<rparr>"

definition dummy_batch :: "env \<Rightarrow> frame \<Rightarrow> frame" where
  "dummy_batch E s =
     s\<lparr>next_address := ((\<lambda>a. code E (kernel_dummy_fptr s) a 0) ^^ 256) (next_address s),
       start_tick := timer E (clock s), stop_tick := timer E (clock s + 1),
       elapsed_dummy_ticks :=
         elapsed_dummy_ticks s + (timer E (clock s + 1) - timer E (clock s)),
       p := p s + 256,
       clock := clock s + 2,
       trace := trace s @ StartTimer (timer E (clock s))
                  # map (\<lambda>a. DummyKernel (kernel_dummy_fptr s) a 0)
                      (chase (\<lambda>a. code E (kernel_dummy_fptr s) a 0) 256 (next_address s))
                  @ [StopTimer (timer E (clock s + 1))]\<rparr>"

text \<open>What a run leaves but the warning flag: the log and the other members.\<close>

definition but_warning :: "frame \<Rightarrow> event list \<times> result" where
  "but_warning s = (trace s, (res s)\<lparr>this_warning := False\<rparr>)"

text \<open>The published members and the log of a run that returned.\<close>

definition published :: "nat \<Rightarrow> mode \<Rightarrow> env \<Rightarrow> config \<Rightarrow> result \<Rightarrow> result option" where
  "published k m E c r = (case run k m E c r of Some (Inr s) \<Rightarrow> Some (res s) | _ \<Rightarrow> None)"

definition run_log :: "nat \<Rightarrow> mode \<Rightarrow> env \<Rightarrow> config \<Rightarrow> result \<Rightarrow> event list option" where
  "run_log k m E c r = (case run k m E c r of Some (Inr s) \<Rightarrow> Some (trace s) | _ \<Rightarrow> None)"

subsection \<open>A concrete run\<close>

text \<open>
  A region of 64 bytes at 4096, every kernel stepping the pointer by 8, a timer that reads
  0, 10000, 10500 and 11500, a target of \<open>2500 * 4\<close> ticks: one batch of the real kernel
  takes 10000 ticks, one of the dummy 1000.
\<close>

definition example_env :: env where
  "example_env =
     \<lparr>acquire_snapshot = True, acquire_publish = True, lock_thread_to_cpu = (\<lambda>_. True),
      boostSchedulingPriority = True, revertSchedulingPriority = True,
      timer = (\<lambda>n. [0, 10000, 10500, 11500] ! n), code = (\<lambda>f a n. a + 8),
      controller = (\<lambda>c. c),
      g_ticks_per_sec = 2500, BENCHMARK_DURATION_SEC = 4, MIN_ELAPSED_TICKS = 10000,
      LATENCY_BENCHMARK_UNROLL_LENGTH = 512, ext_mem_array = 4096, ext_len = 64\<rparr>"

definition example_config :: config where
  "example_config =
     \<lparr>this_mem_array = 4096, this_len = 64, this_passes_per_iteration = 2,
      this_cpu_affinity = 1, this_kernel_fptr = 100, this_kernel_dummy_fptr = 200\<rparr>"

definition example_result :: result where
  "example_result =
     \<lparr>this_adjusted_ticks = 0, this_elapsed_ticks = 0, this_elapsed_dummy_ticks = 0,
      this_warning = False, this_bytes_per_pass = 0, this_completed = False, this_passes = 0\<rparr>"

text \<open>The same run with pinning refused, with the lock refused at publication, and with
  the controller moving the region to 8192 after the snapshot; and a run with the lock
  refused at the snapshot and a target of no ticks.\<close>

definition pin_fails_env :: env where
  "pin_fails_env = example_env\<lparr>lock_thread_to_cpu := (\<lambda>_. False)\<rparr>"

definition publish_fails_env :: env where
  "publish_fails_env = example_env\<lparr>acquire_publish := False\<rparr>"

definition move_region :: "config \<Rightarrow> config" where
  "move_region c = c\<lparr>this_mem_array := 8192\<rparr>"

definition moved_env :: env where
  "moved_env = example_env\<lparr>controller := move_region\<rparr>"

definition snapshot_fails_env :: env where
  "snapshot_fails_env = example_env\<lparr>acquire_snapshot := False, g_ticks_per_sec := 0\<rparr>"

section \<open>Properties\<close>

subsection \<open>The kernel batches and the iterations\<close>

lemma length_chase [simp]: "length (chase g n a) = n"
  by (induction n arbitrary: a) auto

lemma funpow_Suc_shift: "(g ^^ Suc n) a = (g ^^ n) (g a)"
  by (simp add: funpow_swap1)

lemma repeat_call_kernel:
  "repeat n (call_kernel E l) s =
     (if n = 0 then Inr s
      else if kernel_fptr s = 0 then Inl NullFunctionCall
      else Inr (s\<lparr>next_address := ((\<lambda>a. code E (kernel_fptr s) a l) ^^ n) (next_address s),
                  trace := trace s @ map (\<lambda>a. Kernel (kernel_fptr s) a l)
                             (chase (\<lambda>a. code E (kernel_fptr s) a l) n (next_address s))\<rparr>))"
proof (induction n arbitrary: s)
  case 0
  show ?case by simp
next
  case (Suc n)
  show ?case
  proof (cases "kernel_fptr s = 0")
    case True
    then show ?thesis by (simp add: call_kernel_def)
  next
    case False
    define s1 where "s1 = emit (Kernel (kernel_fptr s) (next_address s) l)
                            (s\<lparr>next_address := code E (kernel_fptr s) (next_address s) l\<rparr>)"
    from False have call: "call_kernel E l s = Inr s1"
      by (simp add: call_kernel_def s1_def)
    have "repeat (Suc n) (call_kernel E l) s = repeat n (call_kernel E l) s1"
      by (simp add: call)
    also note Suc.IH [of s1]
    finally show ?thesis
      using False unfolding funpow_Suc_shift
      by (simp add: s1_def emit_def)
  qed
qed

lemma repeat_call_kernel_dummy:
  "repeat n (call_kernel_dummy E l) s =
     (if n = 0 then Inr s
      else if kernel_dummy_fptr s = 0 then Inl NullFunctionCall
      else Inr (s\<lparr>next_address := ((\<lambda>a. code E (kernel_dummy_fptr s) a l) ^^ n) (next_address s),
                  trace := trace s @ map (\<lambda>a. DummyKernel (kernel_dummy_fptr s) a l)
                             (chase (\<lambda>a. code E (kernel_dummy_fptr s) a l) n (next_address s))\<rparr>))"
proof (induction n arbitrary: s)
  case 0
  show ?case by simp
next
  case (Suc n)
  show ?case
  proof (cases "kernel_dummy_fptr s = 0")
    case True
    then show ?thesis by (simp add: call_kernel_dummy_def)
  next
    case False
    define s1 where "s1 = emit (DummyKernel (kernel_dummy_fptr s) (next_address s) l)
                            (s\<lparr>next_address := code E (kernel_dummy_fptr s) (next_address s) l\<rparr>)"
    from False have call: "call_kernel_dummy E l s = Inr s1"
      by (simp add: call_kernel_dummy_def s1_def)
    have "repeat (Suc n) (call_kernel_dummy E l) s = repeat n (call_kernel_dummy E l) s1"
      by (simp add: call)
    also note Suc.IH [of s1]
    finally show ?thesis
      using False unfolding funpow_Suc_shift
      by (simp add: s1_def emit_def)
  qed
qed

lemma batch_ticks_0 [simp]: "batch_ticks E c 0 = 0"
  by (simp add: batch_ticks_def)

lemma batch_ticks_Suc_shift:
  "batch_ticks E c (Suc n) = (timer E (c + 1) - timer E c) + batch_ticks E (c + 2) n"
  unfolding batch_ticks_def
  by (simp add: sum.lessThan_Suc_shift add.commute add.left_commute del: sum.lessThan_Suc)

lemma real_batch_eq:
  "kernel_fptr s \<noteq> 0 \<Longrightarrow>
   (case UNROLL256 (call_kernel E 0) (start_timer E s) of
      Inl e \<Rightarrow> Inl e
    | Inr s1 \<Rightarrow>
        (let s2 = stop_timer E s1;
             s3 = s2\<lparr>elapsed_ticks := elapsed_ticks s2 + (stop_tick s2 - start_tick s2)\<rparr>
         in Inr (s3\<lparr>passes := passes s3 + 256\<rparr>))) = Inr (real_batch E s)"
  by (cases s)
    (simp add: UNROLL256_def repeat_call_kernel start_timer_def stop_timer_def emit_def
      real_batch_def Let_def)

lemma real_loop_Suc:
  "real_loop (Suc k) E s =
     (if elapsed_ticks s < target_ticks s then
        (if kernel_fptr s = 0 then Some (Inl NullFunctionCall) else real_loop k E (real_batch E s))
      else Some (Inr s))"
proof (cases "kernel_fptr s = 0")
  case True
  then show ?thesis
    by (simp add: UNROLL256_def repeat_call_kernel start_timer_def emit_def)
next
  case False
  from real_batch_eq [OF False, of E] show ?thesis
    using False by (auto simp: Let_def split: sum.splits)
qed

declare real_loop.simps(2) [simp del]

lemma real_batch_fields:
  "kept (real_batch E s) = kept s"
  "p (real_batch E s) = p s"
  "elapsed_dummy_ticks (real_batch E s) = elapsed_dummy_ticks s"
  "passes (real_batch E s) = passes s + 256"
  "clock (real_batch E s) = clock s + 2"
  "elapsed_ticks (real_batch E s) = elapsed_ticks s + (timer E (clock s + 1) - timer E (clock s))"
  by (simp_all add: real_batch_def kept_def)

lemma real_batch_trace:
  "\<exists>evs. trace (real_batch E s) = trace s @ evs \<and> length (filter is_kernel evs) = 256
     \<and> length (filter is_timer evs) = 2
     \<and> (\<forall>e\<in>set evs. is_timer e \<or> is_kernel e)"
  by (auto simp: real_batch_def o_def)

lemma real_loop_Inr:
  "real_loop k E s = Some (Inr s') \<Longrightarrow>
     \<exists>J evs. J \<le> k
       \<and> kept s' = kept s \<and> p s' = p s \<and> elapsed_dummy_ticks s' = elapsed_dummy_ticks s
       \<and> passes s' = passes s + 256 * of_nat J
       \<and> elapsed_ticks s' = elapsed_ticks s + batch_ticks E (clock s) J
       \<and> clock s' = clock s + 2 * J
       \<and> \<not> elapsed_ticks s' < target_ticks s'
       \<and> trace s' = trace s @ evs
       \<and> length (filter is_kernel evs) = 256 * J
       \<and> length (filter is_timer evs) = 2 * J
       \<and> (\<forall>e\<in>set evs. is_timer e \<or> is_kernel e)"
proof (induction k arbitrary: s)
  case 0
  then have "s' = s" "\<not> elapsed_ticks s < target_ticks s"
    by (auto split: if_splits)
  then show ?case
    by (intro exI [of _ 0] exI [of _ "[]"]) simp
next
  case (Suc k)
  show ?case
  proof (cases "elapsed_ticks s < target_ticks s")
    case False
    with Suc.prems have "s' = s"
      by (simp add: real_loop_Suc)
    with False show ?thesis
      by (intro exI [of _ 0] exI [of _ "[]"]) simp
  next
    case True
    with Suc.prems have rest: "real_loop k E (real_batch E s) = Some (Inr s')"
      by (simp add: real_loop_Suc split: if_splits)
    from Suc.IH [OF rest] obtain J evs where J: "J \<le> k"
      and k: "kept s' = kept (real_batch E s)" "p s' = p (real_batch E s)"
        "elapsed_dummy_ticks s' = elapsed_dummy_ticks (real_batch E s)"
      and ps: "passes s' = passes (real_batch E s) + 256 * of_nat J"
      and el: "elapsed_ticks s' = elapsed_ticks (real_batch E s) + batch_ticks E (clock (real_batch E s)) J"
      and cl: "clock s' = clock (real_batch E s) + 2 * J"
      and ex: "\<not> elapsed_ticks s' < target_ticks s'"
      and tr: "trace s' = trace (real_batch E s) @ evs"
      and nk: "length (filter is_kernel evs) = 256 * J"
      and nt: "length (filter is_timer evs) = 2 * J"
      and al: "\<forall>e\<in>set evs. is_timer e \<or> is_kernel e"
      by blast
    from real_batch_trace [of E s] obtain evs0 where
      tr0: "trace (real_batch E s) = trace s @ evs0" and nk0: "length (filter is_kernel evs0) = 256"
      and nt0: "length (filter is_timer evs0) = 2"
      and al0: "\<forall>e\<in>set evs0. is_timer e \<or> is_kernel e"
      by blast
    show ?thesis
    proof (intro exI [of _ "Suc J"] exI [of _ "evs0 @ evs"] conjI)
      show "Suc J \<le> Suc k" using J by simp
      show "kept s' = kept s" using k by (simp add: real_batch_fields)
      show "p s' = p s" using k by (simp add: real_batch_fields)
      show "elapsed_dummy_ticks s' = elapsed_dummy_ticks s" using k by (simp add: real_batch_fields)
      show "passes s' = passes s + 256 * of_nat (Suc J)"
        using ps by (simp add: real_batch_fields algebra_simps)
      show "elapsed_ticks s' = elapsed_ticks s + batch_ticks E (clock s) (Suc J)"
        using el by (simp add: real_batch_fields batch_ticks_Suc_shift add.assoc)
      show "clock s' = clock s + 2 * Suc J" using cl by (simp add: real_batch_fields)
      show "\<not> elapsed_ticks s' < target_ticks s'" by (rule ex)
      show "trace s' = trace s @ evs0 @ evs" using tr tr0 by simp
      show "length (filter is_kernel (evs0 @ evs)) = 256 * Suc J" using nk nk0 by simp
      show "length (filter is_timer (evs0 @ evs)) = 2 * Suc J" using nt nt0 by simp
      show "\<forall>e\<in>set (evs0 @ evs). is_timer e \<or> is_kernel e" using al al0 by auto
    qed
  qed
qed

lemma dummy_batch_eq:
  "kernel_dummy_fptr s \<noteq> 0 \<Longrightarrow>
   (case UNROLL256 (call_kernel_dummy E 0) (start_timer E s) of
      Inl e \<Rightarrow> Inl e
    | Inr s1 \<Rightarrow>
        (let s2 = stop_timer E s1;
             s3 = s2\<lparr>elapsed_dummy_ticks :=
                       elapsed_dummy_ticks s2 + (stop_tick s2 - start_tick s2)\<rparr>
         in Inr (s3\<lparr>p := p s3 + 256\<rparr>))) = Inr (dummy_batch E s)"
  by (cases s)
    (simp add: UNROLL256_def repeat_call_kernel_dummy start_timer_def stop_timer_def emit_def
      dummy_batch_def Let_def)

lemma dummy_loop_Suc:
  "dummy_loop (Suc k) E s =
     (if p s < passes s then
        (if kernel_dummy_fptr s = 0 then Some (Inl NullFunctionCall)
         else dummy_loop k E (dummy_batch E s))
      else Some (Inr s))"
proof (cases "kernel_dummy_fptr s = 0")
  case True
  then show ?thesis
    by (simp add: UNROLL256_def repeat_call_kernel_dummy start_timer_def emit_def)
next
  case False
  from dummy_batch_eq [OF False, of E] show ?thesis
    using False by (auto simp: Let_def split: sum.splits)
qed

declare dummy_loop.simps(2) [simp del]

lemma dummy_batch_fields:
  "kept (dummy_batch E s) = kept s"
  "passes (dummy_batch E s) = passes s"
  "elapsed_ticks (dummy_batch E s) = elapsed_ticks s"
  "p (dummy_batch E s) = p s + 256"
  "clock (dummy_batch E s) = clock s + 2"
  "elapsed_dummy_ticks (dummy_batch E s) =
     elapsed_dummy_ticks s + (timer E (clock s + 1) - timer E (clock s))"
  by (simp_all add: dummy_batch_def kept_def)

lemma dummy_batch_trace:
  "\<exists>evs. trace (dummy_batch E s) = trace s @ evs \<and> length (filter is_dummy evs) = 256
     \<and> length (filter is_timer evs) = 2
     \<and> (\<forall>e\<in>set evs. is_timer e \<or> is_dummy e)"
  by (auto simp: dummy_batch_def o_def)

text \<open>Stepping a counter that is a multiple of 256 below another one does not wrap.\<close>

lemma step_256:
  fixes x y :: u64
  assumes lt: "x < y" and dx: "256 dvd unat x" and dy: "256 dvd unat y"
  shows "unat (x + 256) = unat x + 256" and "x + 256 \<le> y" and "256 dvd unat (x + 256)"
proof -
  from lt have "unat x < unat y" by (simp add: word_less_nat_alt)
  with dx dy have le: "unat x + 256 \<le> unat y" by (auto elim!: dvdE)
  moreover have "unat y < 2 ^ 64" using unsigned_less [of y] by simp
  ultimately show eq: "unat (x + 256) = unat x + 256" by (simp add: unat_word_ariths)
  from eq le show "x + 256 \<le> y" by (simp add: word_le_nat_alt)
  from eq dx show "256 dvd unat (x + 256)" by simp
qed

lemma dummy_loop_Inr:
  "dummy_loop k E s = Some (Inr s') \<Longrightarrow> p s \<le> passes s \<Longrightarrow>
   256 dvd unat (p s) \<Longrightarrow> 256 dvd unat (passes s) \<Longrightarrow>
     \<exists>evs. kept s' = kept s \<and> passes s' = passes s \<and> elapsed_ticks s' = elapsed_ticks s
       \<and> p s' = passes s
       \<and> elapsed_dummy_ticks s' =
           elapsed_dummy_ticks s + batch_ticks E (clock s) ((unat (passes s) - unat (p s)) div 256)
       \<and> clock s' = clock s + 2 * ((unat (passes s) - unat (p s)) div 256)
       \<and> trace s' = trace s @ evs
       \<and> length (filter is_dummy evs) = unat (passes s) - unat (p s)
       \<and> length (filter is_timer evs) = 2 * ((unat (passes s) - unat (p s)) div 256)
       \<and> (\<forall>e\<in>set evs. is_timer e \<or> is_dummy e)"
proof (induction k arbitrary: s)
  case 0
  then have "s' = s" "\<not> p s < passes s"
    by (auto split: if_splits)
  with "0.prems"(2) have "s' = s" "p s = passes s" by auto
  then show ?case
    by (intro exI [of _ "[]"]) simp
next
  case (Suc k)
  show ?case
  proof (cases "p s < passes s")
    case False
    with Suc.prems have "s' = s" "p s = passes s"
      by (auto simp: dummy_loop_Suc)
    then show ?thesis
      by (intro exI [of _ "[]"]) simp
  next
    case True
    let ?b = "dummy_batch E s"
    from True Suc.prems have rest: "dummy_loop k E ?b = Some (Inr s')"
      by (simp add: dummy_loop_Suc split: if_splits)
    note st = step_256 [OF True Suc.prems(3) Suc.prems(4)]
    have le: "p ?b \<le> passes ?b" and d1: "256 dvd unat (p ?b)" and d2: "256 dvd unat (passes ?b)"
      using st Suc.prems by (simp_all add: dummy_batch_fields)
    have J: "(unat (passes s) - unat (p s)) div 256
               = Suc ((unat (passes ?b) - unat (p ?b)) div 256)"
    proof -
      from st(1,2) have "unat (p s) + 256 \<le> unat (passes s)"
        by (simp add: word_le_nat_alt)
      then have "(unat (passes s) - unat (p s)) div 256
                   = Suc ((unat (passes s) - unat (p s) - 256) div 256)"
        by (simp add: le_div_geq)
      then show ?thesis using st(1) by (simp add: dummy_batch_fields)
    qed
    have D: "unat (passes s) - unat (p s) = 256 + (unat (passes ?b) - unat (p ?b))"
    proof -
      from st(1,2) have "unat (p s) + 256 \<le> unat (passes s)"
        by (simp add: word_le_nat_alt)
      then show ?thesis using st(1) by (simp add: dummy_batch_fields)
    qed
    from Suc.IH [OF rest le d1 d2] obtain evs where
          k: "kept s' = kept ?b" "passes s' = passes ?b" "elapsed_ticks s' = elapsed_ticks ?b"
      and pp: "p s' = passes ?b"
      and el: "elapsed_dummy_ticks s' = elapsed_dummy_ticks ?b
                 + batch_ticks E (clock ?b) ((unat (passes ?b) - unat (p ?b)) div 256)"
      and cl: "clock s' = clock ?b + 2 * ((unat (passes ?b) - unat (p ?b)) div 256)"
      and tr: "trace s' = trace ?b @ evs"
      and nd: "length (filter is_dummy evs) = unat (passes ?b) - unat (p ?b)"
      and nt: "length (filter is_timer evs) = 2 * ((unat (passes ?b) - unat (p ?b)) div 256)"
      and al: "\<forall>e\<in>set evs. is_timer e \<or> is_dummy e"
      by blast
    from dummy_batch_trace [of E s] obtain evs0 where
      tr0: "trace ?b = trace s @ evs0" and nd0: "length (filter is_dummy evs0) = 256"
      and nt0: "length (filter is_timer evs0) = 2"
      and al0: "\<forall>e\<in>set evs0. is_timer e \<or> is_dummy e"
      by blast
    show ?thesis
    proof (intro exI [of _ "evs0 @ evs"] conjI)
      show "kept s' = kept s" using k by (simp add: dummy_batch_fields)
      show "passes s' = passes s" using k by (simp add: dummy_batch_fields)
      show "elapsed_ticks s' = elapsed_ticks s" using k by (simp add: dummy_batch_fields)
      show "p s' = passes s" using pp by (simp add: dummy_batch_fields)
      show "elapsed_dummy_ticks s' = elapsed_dummy_ticks s
              + batch_ticks E (clock s) ((unat (passes s) - unat (p s)) div 256)"
        unfolding J using el by (simp add: dummy_batch_fields batch_ticks_Suc_shift add.assoc)
      show "clock s' = clock s + 2 * ((unat (passes s) - unat (p s)) div 256)"
        unfolding J using cl by (simp add: dummy_batch_fields)
      show "trace s' = trace s @ evs0 @ evs" using tr tr0 by simp
      show "length (filter is_dummy (evs0 @ evs)) = unat (passes s) - unat (p s)"
        unfolding D using nd nd0 by simp
      show "length (filter is_timer (evs0 @ evs)) = 2 * ((unat (passes s) - unat (p s)) div 256)"
        unfolding J using nt nt0 by simp
      show "\<forall>e\<in>set (evs0 @ evs). is_timer e \<or> is_dummy e" using al al0 by auto
    qed
  qed
qed

lemma dummy_loop_returns:
  "p s \<le> passes s \<Longrightarrow> 256 dvd unat (p s) \<Longrightarrow> 256 dvd unat (passes s) \<Longrightarrow>
   (unat (passes s) - unat (p s)) div 256 \<le> k \<Longrightarrow> dummy_loop k E s \<noteq> None"
proof (induction k arbitrary: s)
  case 0
  have "\<not> p s < passes s"
  proof
    assume lt: "p s < passes s"
    from step_256 [OF lt "0.prems"(2) "0.prems"(3)]
    have "unat (p s) + 256 \<le> unat (passes s)" by (simp add: word_le_nat_alt)
    then have "1 \<le> (unat (passes s) - unat (p s)) div 256"
      by (simp add: le_div_geq)
    with "0.prems"(4) show False by simp
  qed
  then show ?case by simp
next
  case (Suc k)
  show ?case
  proof (cases "p s < passes s \<and> kernel_dummy_fptr s \<noteq> 0")
    case False
    then show ?thesis by (auto simp: dummy_loop_Suc)
  next
    case True
    let ?b = "dummy_batch E s"
    from True have lt: "p s < passes s" by simp
    note st = step_256 [OF lt Suc.prems(2) Suc.prems(3)]
    have le: "p ?b \<le> passes ?b" and d1: "256 dvd unat (p ?b)" and d2: "256 dvd unat (passes ?b)"
      using st Suc.prems by (simp_all add: dummy_batch_fields)
    from st(1,2) have "unat (p s) + 256 \<le> unat (passes s)"
      by (simp add: word_le_nat_alt)
    then have "(unat (passes s) - unat (p s)) div 256
                 = Suc ((unat (passes s) - unat (p s) - 256) div 256)"
      by (simp add: le_div_geq)
    with st(1) Suc.prems(4) have "(unat (passes ?b) - unat (p ?b)) div 256 \<le> k"
      by (simp add: dummy_batch_fields)
    from Suc.IH [OF le d1 d2 this] True show ?thesis
      by (simp add: dummy_loop_Suc)
  qed
qed

lemma kernel_for_Inr:
  "kernel_for E s = Inr s' \<Longrightarrow>
     \<exists>evs. kept s' = kept s \<and> passes s' = passes s \<and> clock s' = clock s
       \<and> start_tick s' = start_tick s \<and> stop_tick s' = stop_tick s
       \<and> elapsed_ticks s' = elapsed_ticks s \<and> elapsed_dummy_ticks s' = elapsed_dummy_ticks s
       \<and> trace s' = trace s @ evs \<and> (\<forall>e\<in>set evs. is_kernel e)
       \<and> length evs = unat (passes s) - unat (p s)"
proof (induction E s rule: kernel_for.induct)
  case (1 E s)
  show ?case
  proof (cases "p s < passes s")
    case False
    with "1.prems" have "s' = s" by (simp add: kernel_for.simps)
    moreover from False have "unat (passes s) - unat (p s) = 0"
      by (simp add: word_less_nat_alt)
    ultimately show ?thesis by (intro exI [of _ "[]"]) simp
  next
    case True
    with "1.prems" obtain s1 where call: "call_kernel E (len s) s = Inr s1"
      and rest: "kernel_for E (s1\<lparr>p := p s1 + 1\<rparr>) = Inr s'"
      by (subst (asm) kernel_for.simps) (auto split: sum.splits)
    from call have s1: "s1 = s\<lparr>next_address := code E (kernel_fptr s) (next_address s) (len s),
                               trace := trace s @ [Kernel (kernel_fptr s) (next_address s) (len s)]\<rparr>"
      by (auto simp: call_kernel_def emit_def split: if_splits)
    from True have "unat (p s) < unat (passes s)" by (simp add: word_less_nat_alt)
    moreover have "unat (passes s) < 2 ^ 64" using unsigned_less [of "passes s"] by simp
    ultimately have D: "unat (passes s) - unat (p s) = Suc (unat (passes s) - unat (p s + 1))"
      by (simp add: unat_word_ariths)
    from "1.IH" [OF True call rest] obtain evs where
      "kept s' = kept s" "passes s' = passes s" "clock s' = clock s"
       "start_tick s' = start_tick s" "stop_tick s' = stop_tick s"
       "elapsed_ticks s' = elapsed_ticks s" "elapsed_dummy_ticks s' = elapsed_dummy_ticks s"
       "trace s' = trace s @ Kernel (kernel_fptr s) (next_address s) (len s) # evs"
       "\<forall>e\<in>set evs. is_kernel e"
       "length evs = unat (passes s) - unat (p s + 1)"
      by (auto simp: s1 kept_def)
    then show ?thesis
      unfolding D
      by (intro exI [of _ "Kernel (kernel_fptr s) (next_address s) (len s) # evs"]) simp
  qed
qed

lemma dummy_for_Inr:
  "dummy_for E s = Inr s' \<Longrightarrow>
     \<exists>evs. kept s' = kept s \<and> passes s' = passes s \<and> clock s' = clock s
       \<and> start_tick s' = start_tick s \<and> stop_tick s' = stop_tick s
       \<and> elapsed_ticks s' = elapsed_ticks s \<and> elapsed_dummy_ticks s' = elapsed_dummy_ticks s
       \<and> trace s' = trace s @ evs \<and> (\<forall>e\<in>set evs. is_dummy e)
       \<and> length evs = unat (passes s) - unat (p s)"
proof (induction E s rule: dummy_for.induct)
  case (1 E s)
  show ?case
  proof (cases "p s < passes s")
    case False
    with "1.prems" have "s' = s" by (simp add: dummy_for.simps)
    moreover from False have "unat (passes s) - unat (p s) = 0"
      by (simp add: word_less_nat_alt)
    ultimately show ?thesis by (intro exI [of _ "[]"]) simp
  next
    case True
    with "1.prems" obtain s1 where call: "call_kernel_dummy E (len s) s = Inr s1"
      and rest: "dummy_for E (s1\<lparr>p := p s1 + 1\<rparr>) = Inr s'"
      by (subst (asm) dummy_for.simps) (auto split: sum.splits)
    from call have s1: "s1 = s\<lparr>next_address := code E (kernel_dummy_fptr s) (next_address s) (len s),
                               trace := trace s @ [DummyKernel (kernel_dummy_fptr s) (next_address s) (len s)]\<rparr>"
      by (auto simp: call_kernel_dummy_def emit_def split: if_splits)
    from True have "unat (p s) < unat (passes s)" by (simp add: word_less_nat_alt)
    moreover have "unat (passes s) < 2 ^ 64" using unsigned_less [of "passes s"] by simp
    ultimately have D: "unat (passes s) - unat (p s) = Suc (unat (passes s) - unat (p s + 1))"
      by (simp add: unat_word_ariths)
    from "1.IH" [OF True call rest] obtain evs where
      "kept s' = kept s" "passes s' = passes s" "clock s' = clock s"
       "start_tick s' = start_tick s" "stop_tick s' = stop_tick s"
       "elapsed_ticks s' = elapsed_ticks s" "elapsed_dummy_ticks s' = elapsed_dummy_ticks s"
       "trace s' = trace s @ DummyKernel (kernel_dummy_fptr s) (next_address s) (len s) # evs"
       "\<forall>e\<in>set evs. is_dummy e"
       "length evs = unat (passes s) - unat (p s + 1)"
      by (auto simp: s1 kept_def)
    then show ?thesis
      unfolding D
      by (intro exI [of _ "DummyKernel (kernel_dummy_fptr s) (next_address s) (len s) # evs"]) simp
  qed
qed

lemma dvd_unat_times_256: "256 dvd unat (256 * x :: u64)"
proof -
  have "(256::nat) dvd 2 ^ 64"
    by (rule dvd_trans [of _ "2 ^ 8"], simp, rule le_imp_power_dvd, simp)
  then show ?thesis by (simp add: unat_word_ariths dvd_mod_iff)
qed

lemma unat_times_256_div: "unat (256 * of_nat J :: u64) div 256 \<le> J"
proof -
  have "unat (256 * of_nat J :: u64) \<le> 256 * J"
    by (simp add: unat_word_ariths unat_of_nat)
  then show ?thesis by simp
qed

lemma measure_time_Inr:
  assumes run: "measure_time k E s = Some (Inr s')" and zero: "passes s = 0" "p s = 0"
  shows "\<exists>J evs. J \<le> k \<and> kept s' = kept s
       \<and> passes s' = 256 * of_nat J
       \<and> p s' = passes s'
       \<and> elapsed_ticks s' = elapsed_ticks s + batch_ticks E (clock s) J
       \<and> \<not> elapsed_ticks s' < target_ticks s'
       \<and> elapsed_dummy_ticks s' =
           elapsed_dummy_ticks s + batch_ticks E (clock s + 2 * J) (unat (passes s') div 256)
       \<and> clock s' = clock s + 2 * J + 2 * (unat (passes s') div 256)
       \<and> trace s' = trace s @ evs
       \<and> length (filter is_kernel evs) = 256 * J
       \<and> length (filter is_dummy evs) = unat (passes s')
       \<and> (\<forall>e\<in>set evs. is_measurement e)"
proof -
  from run obtain s1 where r1: "real_loop k E (s\<lparr>next_address := mem_array s\<rparr>) = Some (Inr s1)"
    and r2: "dummy_loop k E (s1\<lparr>next_address := mem_array s1\<rparr>) = Some (Inr s')"
    by (auto simp: measure_time_def split: option.splits sum.splits)
  from real_loop_Inr [OF r1] zero obtain J evs1 where J: "J \<le> k"
    and k1: "kept s1 = kept s" "p s1 = 0" "elapsed_dummy_ticks s1 = elapsed_dummy_ticks s"
    and ps1: "passes s1 = 256 * of_nat J"
    and el1: "elapsed_ticks s1 = elapsed_ticks s + batch_ticks E (clock s) J"
    and cl1: "clock s1 = clock s + 2 * J"
    and ex1: "\<not> elapsed_ticks s1 < target_ticks s1"
    and tr1: "trace s1 = trace s @ evs1"
    and nk1: "length (filter is_kernel evs1) = 256 * J"
    and al1: "\<forall>e\<in>set evs1. is_timer e \<or> is_kernel e"
    by (auto simp: kept_def)
  let ?s1 = "s1\<lparr>next_address := mem_array s1\<rparr>"
  have pre: "p ?s1 \<le> passes ?s1" "256 dvd unat (p ?s1)" "256 dvd unat (passes ?s1)"
    using k1 ps1 by (simp_all add: dvd_unat_times_256)
  from dummy_loop_Inr [OF r2 pre] k1 obtain evs2 where
        k2: "kept s' = kept s1" "passes s' = passes s1" "elapsed_ticks s' = elapsed_ticks s1"
    and pp: "p s' = passes s1"
    and el2: "elapsed_dummy_ticks s' =
                elapsed_dummy_ticks s1 + batch_ticks E (clock s1) (unat (passes s1) div 256)"
    and cl2: "clock s' = clock s1 + 2 * (unat (passes s1) div 256)"
    and tr2: "trace s' = trace s1 @ evs2"
    and nd2: "length (filter is_dummy evs2) = unat (passes s1)"
    and al2: "\<forall>e\<in>set evs2. is_timer e \<or> is_dummy e"
    by (auto simp: kept_def)
  have nd1: "filter is_dummy evs1 = []"
  proof -
    have "\<not> is_dummy e" if "e \<in> set evs1" for e
      using al1 that by (cases e) auto
    then show ?thesis by (simp add: filter_empty_conv)
  qed
  have nk2: "filter is_kernel evs2 = []"
  proof -
    have "\<not> is_kernel e" if "e \<in> set evs2" for e
      using al2 that by (cases e) auto
    then show ?thesis by (simp add: filter_empty_conv)
  qed
  show ?thesis
  proof (intro exI [of _ J] exI [of _ "evs1 @ evs2"] conjI)
    show "J \<le> k" by (rule J)
    show "kept s' = kept s" using k1 k2 by simp
    show "passes s' = 256 * of_nat J" using k2 ps1 by simp
    show "p s' = passes s'" using pp k2 by simp
    show "elapsed_ticks s' = elapsed_ticks s + batch_ticks E (clock s) J" using k2 el1 by simp
    show "\<not> elapsed_ticks s' < target_ticks s'"
      using ex1 k2 by (simp add: kept_def)
    show "elapsed_dummy_ticks s' =
            elapsed_dummy_ticks s + batch_ticks E (clock s + 2 * J) (unat (passes s') div 256)"
      using el2 k1 k2 cl1 by simp
    show "clock s' = clock s + 2 * J + 2 * (unat (passes s') div 256)"
      using cl2 cl1 k2 by simp
    show "trace s' = trace s @ evs1 @ evs2" using tr1 tr2 by simp
    show "length (filter is_kernel (evs1 @ evs2)) = 256 * J" using nk1 nk2 by simp
    show "length (filter is_dummy (evs1 @ evs2)) = unat (passes s')" using nd1 nd2 k2 by simp
    show "\<forall>e\<in>set (evs1 @ evs2). is_measurement e"
      using al1 al2 by (auto simp: is_measurement_def)
  qed
qed

lemma measure_time_None:
  assumes zero: "passes s = 0" "p s = 0"
  shows "measure_time k E s = None \<longleftrightarrow> real_loop k E (s\<lparr>next_address := mem_array s\<rparr>) = None"
proof (cases "real_loop k E (s\<lparr>next_address := mem_array s\<rparr>)")
  case None
  then show ?thesis by (simp add: measure_time_def)
next
  case (Some x)
  show ?thesis
  proof (cases x)
    case (Inl e)
    with Some show ?thesis by (simp add: measure_time_def)
  next
    case (Inr s1)
    with Some have r1: "real_loop k E (s\<lparr>next_address := mem_array s\<rparr>) = Some (Inr s1)"
      by simp
    from real_loop_Inr [OF r1] zero obtain J where J: "J \<le> k"
      and p1: "p s1 = 0" and ps1: "passes s1 = 256 * of_nat J"
      by auto
    let ?s1 = "s1\<lparr>next_address := mem_array s1\<rparr>"
    have "(unat (passes ?s1) - unat (p ?s1)) div 256 \<le> k"
      using p1 ps1 J unat_times_256_div [of J] by simp
    moreover have "p ?s1 \<le> passes ?s1" "256 dvd unat (p ?s1)" "256 dvd unat (passes ?s1)"
      using p1 ps1 by (simp_all add: dvd_unat_times_256)
    ultimately have "dummy_loop k E ?s1 \<noteq> None"
      by (intro dummy_loop_returns)
    with r1 show ?thesis by (simp add: measure_time_def)
  qed
qed

lemma measure_size_Inr:
  assumes run: "measure_size E s = Inr s'"
  shows "\<exists>ks ds. kept s' = kept s \<and> passes s' = passes s
       \<and> elapsed_ticks s' = elapsed_ticks s + (timer E (clock s) - timer E (clock s + 1))
       \<and> elapsed_dummy_ticks s' =
           elapsed_dummy_ticks s + (timer E (clock s + 2) - timer E (clock s + 3))
       \<and> clock s' = clock s + 4
       \<and> trace s' = trace s @ StartTimer (timer E (clock s)) # ks
                       @ StopTimer (timer E (clock s + 1)) # StartTimer (timer E (clock s + 2)) # ds
                       @ [StopTimer (timer E (clock s + 3))]
       \<and> (\<forall>e\<in>set ks. is_kernel e) \<and> length ks = unat (passes s)
       \<and> (\<forall>e\<in>set ds. is_dummy e) \<and> length ds = unat (passes s)"
proof -
  let ?a = "(start_timer E (s\<lparr>next_address := mem_array s\<rparr>))\<lparr>p := 0\<rparr>"
  from run obtain s1 where r1: "kernel_for E ?a = Inr s1"
    by (auto simp: measure_size_def split: sum.splits)
  let ?s3 = "(stop_timer E s1)\<lparr>elapsed_ticks :=
       elapsed_ticks (stop_timer E s1) + (start_tick (stop_timer E s1) - stop_tick (stop_timer E s1))\<rparr>"
  let ?b = "(start_timer E (?s3\<lparr>next_address := this_mem_array (cfg ?s3)\<rparr>))\<lparr>p := 0\<rparr>"
  from run r1 obtain s4 where r2: "dummy_for E ?b = Inr s4"
    and fin: "s' = (stop_timer E s4)\<lparr>elapsed_dummy_ticks :=
        elapsed_dummy_ticks (stop_timer E s4) + (start_tick (stop_timer E s4) - stop_tick (stop_timer E s4))\<rparr>"
    by (auto simp: measure_size_def Let_def split: sum.splits)
  from kernel_for_Inr [OF r1] obtain ks where
        a: "kept s1 = kept s" "passes s1 = passes s" "clock s1 = clock s + 1"
           "start_tick s1 = timer E (clock s)"
           "elapsed_ticks s1 = elapsed_ticks s" "elapsed_dummy_ticks s1 = elapsed_dummy_ticks s"
           "trace s1 = trace s @ StartTimer (timer E (clock s)) # ks"
           "\<forall>e\<in>set ks. is_kernel e" "length ks = unat (passes s)"
    by (auto simp: start_timer_def emit_def kept_def)
  from dummy_for_Inr [OF r2] a obtain ds where
        b: "kept s4 = kept s" "passes s4 = passes s" "clock s4 = clock s + 3"
           "start_tick s4 = timer E (clock s + 2)"
           "elapsed_ticks s4 = elapsed_ticks s + (timer E (clock s) - timer E (clock s + 1))"
           "elapsed_dummy_ticks s4 = elapsed_dummy_ticks s"
           "trace s4 = trace s @ StartTimer (timer E (clock s)) # ks
                        @ StopTimer (timer E (clock s + 1)) # StartTimer (timer E (clock s + 2)) # ds"
           "\<forall>e\<in>set ds. is_dummy e" "length ds = unat (passes s)"
    by (auto simp: start_timer_def stop_timer_def emit_def kept_def)
  show ?thesis
    using a(8,9) b unfolding fin
    by (intro exI [of _ ks] exI [of _ ds]) (simp add: stop_timer_def emit_def kept_def)
qed

subsection \<open>Before and after the measurement\<close>

lemma prime_memory_unfold:
  "prime_memory s = prime_once (prime_once (prime_once (prime_once s)))"
  by (simp add: prime_memory_def eval_nat_numeral)

lemma prologue_fields:
  "res (prologue m E c r) = r"
  "cfg (prologue m E c r) = controller E c"
  "passes (prologue USE_TIME_BASED_BENCHMARKS E c r) = 0"
  "p (prologue m E c r) = 0"
  "elapsed_ticks (prologue m E c r) = 0"
  "elapsed_dummy_ticks (prologue m E c r) = 0"
  "warning (prologue m E c r) = False"
  "clock (prologue m E c r) = 0"
  "target_ticks (prologue m E c r) = g_ticks_per_sec E * BENCHMARK_DURATION_SEC E"
  "locked (prologue m E c r) = lock_thread_to_cpu E (cpu_affinity (prologue m E c r))"
  by (simp_all add: prologue_def prime_memory_unfold prime_once_def boost_priority_def
      set_affinity_def controller_writes_def snapshot_def init_frame_def emit_def Let_def
      split: mode.splits)

lemma prologue_snapshot:
  "acquire_snapshot E \<Longrightarrow> cpu_affinity (prologue m E c r) = this_cpu_affinity c"
  "acquire_snapshot E \<Longrightarrow> kernel_fptr (prologue m E c r) = this_kernel_fptr c"
  "acquire_snapshot E \<Longrightarrow> kernel_dummy_fptr (prologue m E c r) = this_kernel_dummy_fptr c"
  "acquire_snapshot E \<Longrightarrow>
     bytes_per_pass (prologue m E c r) = LATENCY_BENCHMARK_UNROLL_LENGTH E * 8"
  "acquire_snapshot E \<Longrightarrow>
     mem_array (prologue USE_TIME_BASED_BENCHMARKS E c r) = this_mem_array c"
  "acquire_snapshot E \<Longrightarrow> len (prologue USE_TIME_BASED_BENCHMARKS E c r) = this_len c"
  "acquire_snapshot E \<Longrightarrow>
     passes (prologue USE_SIZE_BASED_BENCHMARKS E c r) = this_passes_per_iteration c"
  by (simp_all add: prologue_def prime_memory_unfold prime_once_def boost_priority_def
      set_affinity_def controller_writes_def snapshot_def init_frame_def emit_def Let_def
      split: mode.splits)

lemma prologue_no_snapshot:
  "\<not> acquire_snapshot E \<Longrightarrow> mem_array (prologue USE_TIME_BASED_BENCHMARKS E c r) = 0"
  "\<not> acquire_snapshot E \<Longrightarrow> len (prologue USE_TIME_BASED_BENCHMARKS E c r) = 0"
  by (simp_all add: prologue_def prime_memory_unfold prime_once_def boost_priority_def
      set_affinity_def controller_writes_def snapshot_def init_frame_def emit_def Let_def)

lemma prologue_trace:
  "\<exists>pre. trace (prologue m E c r) =
           pre @ replicate 4 (SequentialRead (mem_array (prologue m E c r))
                                (mem_array (prologue m E c r) + len (prologue m E c r)))
     \<and> (\<forall>e\<in>set pre. \<not> is_measurement e \<and> \<not> is_read e \<and> \<not> is_store e
                        \<and> \<not> is_revert e \<and> e \<noteq> UnlockThread)"
  by (simp add: prologue_def prime_memory_unfold prime_once_def boost_priority_def
      set_affinity_def controller_writes_def snapshot_def init_frame_def emit_def Let_def
      is_measurement_def eval_nat_numeral
      split: mode.splits)

lemma epilogue_fields:
  "passes (epilogue E s) = passes s"
  "p (epilogue E s) = p s"
  "elapsed_ticks (epilogue E s) = elapsed_ticks s"
  "elapsed_dummy_ticks (epilogue E s) = elapsed_dummy_ticks s"
  "clock (epilogue E s) = clock s"
  "mem_array (epilogue E s) = mem_array s"
  "len (epilogue E s) = len s"
  "target_ticks (epilogue E s) = target_ticks s"
  "locked (epilogue E s) = locked s"
  "cpu_affinity (epilogue E s) = cpu_affinity s"
  "bytes_per_pass (epilogue E s) = bytes_per_pass s"
  "cfg (epilogue E s) = cfg s"
  "adjusted_ticks (epilogue E s) = elapsed_ticks s - elapsed_dummy_ticks s"
  "warning (epilogue E s) =
     (warning s \<or> fishy E (elapsed_ticks s) (elapsed_dummy_ticks s)
                    (elapsed_ticks s - elapsed_dummy_ticks s))"
  by (simp_all add: epilogue_def publish_def store_def revert_priority_def unset_affinity_def
      adjust_and_warn_def emit_def fishy_def Let_def)

lemma epilogue_res:
  "res (epilogue E s) =
     (if acquire_publish E then
        \<lparr>this_adjusted_ticks = elapsed_ticks s - elapsed_dummy_ticks s,
         this_elapsed_ticks = elapsed_ticks s,
         this_elapsed_dummy_ticks = elapsed_dummy_ticks s,
         this_warning = (warning s \<or> fishy E (elapsed_ticks s) (elapsed_dummy_ticks s)
                                        (elapsed_ticks s - elapsed_dummy_ticks s)),
         this_bytes_per_pass = bytes_per_pass s,
         this_completed = True,
         this_passes = passes s\<rparr>
      else res s)"
  by (cases "res s")
    (simp add: epilogue_def publish_def store_def revert_priority_def unset_affinity_def
      adjust_and_warn_def emit_def fishy_def Let_def)

lemma epilogue_trace:
  "trace (epilogue E s) =
     trace s @ (if locked s then [UnlockThread] else [])
       @ RevertPriority (revertSchedulingPriority E)
       # (if revertSchedulingPriority E then [] else [Cerr FailedToRevert])
       @ (if acquire_publish E then
            [AcquireLock True, Store F_adjusted_ticks, Store F_elapsed_ticks,
             Store F_elapsed_dummy_ticks, Store F_warning, Store F_bytes_per_pass,
             Store F_completed, Store F_passes, ReleaseLock]
          else [AcquireLock False])"
  by (simp add: epilogue_def publish_def store_def revert_priority_def unset_affinity_def
      adjust_and_warn_def emit_def Let_def)

lemma run_Inr:
  assumes "run k m E c r = Some (Inr s')"
  shows "\<exists>s evs. run_benchmark k m E (prologue m E c r) = Some (Inr s) \<and> s' = epilogue E s
           \<and> kept s = kept (prologue m E c r)
           \<and> trace s = trace (prologue m E c r) @ evs \<and> (\<forall>e\<in>set evs. is_measurement e)"
proof -
  from assms obtain s where b: "run_benchmark k m E (prologue m E c r) = Some (Inr s)"
    and e: "s' = epilogue E s"
    by (auto simp: run_def split: option.splits sum.splits)
  have "\<exists>evs. kept s = kept (prologue m E c r)
           \<and> trace s = trace (prologue m E c r) @ evs \<and> (\<forall>e\<in>set evs. is_measurement e)"
  proof (cases m)
    case USE_TIME_BASED_BENCHMARKS
    with b have "measure_time k E (prologue USE_TIME_BASED_BENCHMARKS E c r) = Some (Inr s)"
      by (simp add: run_benchmark_def)
    from measure_time_Inr [OF this] USE_TIME_BASED_BENCHMARKS show ?thesis
      by (auto simp: prologue_fields)
  next
    case USE_SIZE_BASED_BENCHMARKS
    with b have "measure_size E (prologue m E c r) = Inr s" by (simp add: run_benchmark_def)
    from measure_size_Inr [OF this] show ?thesis
      by (auto simp: is_measurement_def)
  qed
  with b e show ?thesis by blast
qed

lemma run_res:
  assumes "run k m E c r = Some (Inr s')"
  shows "res s' =
     (if acquire_publish E then
        \<lparr>this_adjusted_ticks = elapsed_ticks s' - elapsed_dummy_ticks s',
         this_elapsed_ticks = elapsed_ticks s',
         this_elapsed_dummy_ticks = elapsed_dummy_ticks s',
         this_warning = fishy E (elapsed_ticks s') (elapsed_dummy_ticks s')
                          (elapsed_ticks s' - elapsed_dummy_ticks s'),
         this_bytes_per_pass = bytes_per_pass s',
         this_completed = True,
         this_passes = passes s'\<rparr>
      else r)"
proof -
  from run_Inr [OF assms] obtain s where e: "s' = epilogue E s"
    and k: "kept s = kept (prologue m E c r)"
    by blast
  from k have "warning s = False" "res s = r"
    by (simp_all add: kept_def prologue_fields)
  then show ?thesis
    unfolding e by (simp add: epilogue_res epilogue_fields)
qed

text \<open>Below \<open>2 ^ 53\<close> the conversion to \<^verbatim>\<open>double\<close> is exact.\<close>

lemma uint64_to_double_exact:
  "unat x < 2 ^ 53 \<Longrightarrow> uint64_to_double x = real (unat x)"
proof -
  assume "unat x < 2 ^ 53"
  then have "excess (unat x) = 0"
    by (subst excess.simps) simp
  then show ?thesis
    by (simp add: uint64_to_double_def)
qed

subsection \<open>The log of a run\<close>

lemma is_measurement_simps [simp]:
  "is_measurement (StartTimer t)" "is_measurement (StopTimer t)"
  "is_measurement (Kernel f a n)" "is_measurement (DummyKernel f a n)"
  "\<not> is_measurement (AcquireLock b)" "\<not> is_measurement ReleaseLock"
  "\<not> is_measurement (LockThreadToCpu i b)" "\<not> is_measurement UnlockThread"
  "\<not> is_measurement (BoostPriority b)" "\<not> is_measurement (RevertPriority b)"
  "\<not> is_measurement (Cerr msg)" "\<not> is_measurement (SequentialRead a a')"
  "\<not> is_measurement (Store fd)"
  by (simp_all add: is_measurement_def)

lemma measurement_is_nothing_else:
  "is_measurement e \<Longrightarrow>
     \<not> is_read e \<and> \<not> is_store e \<and> \<not> is_revert e \<and> e \<noteq> UnlockThread"
  by (cases e) simp_all

text \<open>The log of a run that returned: what precedes the measurement, the four priming
  reads, the measurement and what follows it.\<close>

lemma run_trace:
  assumes "run k m E c r = Some (Inr s')"
  shows "\<exists>pre evs. trace s' =
            pre @ replicate 4 (SequentialRead (mem_array s') (mem_array s' + len s')) @ evs
              @ (if lock_thread_to_cpu E (cpu_affinity s') then [UnlockThread] else [])
              @ RevertPriority (revertSchedulingPriority E)
              # (if revertSchedulingPriority E then [] else [Cerr FailedToRevert])
              @ (if acquire_publish E then
                   [AcquireLock True, Store F_adjusted_ticks, Store F_elapsed_ticks,
                    Store F_elapsed_dummy_ticks, Store F_warning, Store F_bytes_per_pass,
                    Store F_completed, Store F_passes, ReleaseLock]
                 else [AcquireLock False])
         \<and> (\<forall>e\<in>set pre. \<not> is_measurement e \<and> \<not> is_read e \<and> \<not> is_store e
                            \<and> \<not> is_revert e \<and> e \<noteq> UnlockThread)
         \<and> (\<forall>e\<in>set evs. is_measurement e)"
proof -
  let ?s0 = "prologue m E c r"
  from run_Inr [OF assms] obtain s evs where e: "s' = epilogue E s"
    and k: "kept s = kept ?s0" and tr: "trace s = trace ?s0 @ evs"
    and ev: "\<forall>e\<in>set evs. is_measurement e"
    by blast
  from prologue_trace [of m E c r] obtain pre where
    tr0: "trace ?s0 = pre @ replicate 4 (SequentialRead (mem_array ?s0) (mem_array ?s0 + len ?s0))"
    and pre: "\<forall>e\<in>set pre. \<not> is_measurement e \<and> \<not> is_read e \<and> \<not> is_store e
                            \<and> \<not> is_revert e \<and> e \<noteq> UnlockThread"
    by blast
  from k have same: "mem_array s = mem_array ?s0" "len s = len ?s0"
    "cpu_affinity s = cpu_affinity ?s0" "locked s = locked ?s0"
    by (simp_all add: kept_def)
  have lk: "locked s = lock_thread_to_cpu E (cpu_affinity s)"
    using same prologue_fields(10) [of m E c r] by simp
  have "trace s' =
            pre @ replicate 4 (SequentialRead (mem_array s') (mem_array s' + len s')) @ evs
              @ (if lock_thread_to_cpu E (cpu_affinity s') then [UnlockThread] else [])
              @ RevertPriority (revertSchedulingPriority E)
              # (if revertSchedulingPriority E then [] else [Cerr FailedToRevert])
              @ (if acquire_publish E then
                   [AcquireLock True, Store F_adjusted_ticks, Store F_elapsed_ticks,
                    Store F_elapsed_dummy_ticks, Store F_warning, Store F_bytes_per_pass,
                    Store F_completed, Store F_passes, ReleaseLock]
                 else [AcquireLock False])"
    using lk by (simp add: e epilogue_trace epilogue_fields tr tr0 same(1,2))
  with pre ev show ?thesis by blast
qed

lemma size_based_elapsed:
  assumes "run k USE_SIZE_BASED_BENCHMARKS E c r = Some (Inr s')"
  shows "elapsed_ticks s' = timer E 0 - timer E 1"
    and "elapsed_dummy_ticks s' = timer E 2 - timer E 3"
proof -
  let ?s0 = "prologue USE_SIZE_BASED_BENCHMARKS E c r"
  from assms obtain s where b: "measure_size E ?s0 = Inr s" and e: "s' = epilogue E s"
    by (auto simp: run_def run_benchmark_def split: option.splits sum.splits)
  from measure_size_Inr [OF b] have
    "elapsed_ticks s = timer E 0 - timer E 1" "elapsed_dummy_ticks s = timer E 2 - timer E 3"
    by (auto simp: prologue_fields numeral_2_eq_2)
  then show "elapsed_ticks s' = timer E 0 - timer E 1"
    and "elapsed_dummy_ticks s' = timer E 2 - timer E 3"
    unfolding e by (simp_all add: epilogue_fields)
qed

subsection \<open>The threshold changes the flag only\<close>

lemma real_loop_MIN:
  "real_loop k (E\<lparr>MIN_ELAPSED_TICKS := x\<rparr>) s = real_loop k E s"
  by (induction k arbitrary: s) (simp_all add: real_loop_Suc real_batch_def)

lemma dummy_loop_MIN:
  "dummy_loop k (E\<lparr>MIN_ELAPSED_TICKS := x\<rparr>) s = dummy_loop k E s"
  by (induction k arbitrary: s) (simp_all add: dummy_loop_Suc dummy_batch_def)

lemma kernel_for_MIN:
  "kernel_for (E\<lparr>MIN_ELAPSED_TICKS := x\<rparr>) s = kernel_for E s"
proof (induction E s rule: kernel_for.induct)
  case (1 E s)
  have call: "call_kernel (E\<lparr>MIN_ELAPSED_TICKS := x\<rparr>) (len s) s = call_kernel E (len s) s"
    by (simp add: call_kernel_def)
  show ?case
  proof (cases "p s < passes s")
    case False
    then show ?thesis
      by (simp add: kernel_for.simps [of E s] kernel_for.simps [of "E\<lparr>MIN_ELAPSED_TICKS := x\<rparr>" s])
  next
    case True
    show ?thesis
    proof (cases "call_kernel E (len s) s")
      case (Inl e)
      with True call show ?thesis
        by (simp add: kernel_for.simps [of E s] kernel_for.simps [of "E\<lparr>MIN_ELAPSED_TICKS := x\<rparr>" s])
    next
      case (Inr s1)
      from "1.IH" [OF True Inr] True call Inr show ?thesis
        by (simp add: kernel_for.simps [of E s] kernel_for.simps [of "E\<lparr>MIN_ELAPSED_TICKS := x\<rparr>" s])
    qed
  qed
qed

lemma dummy_for_MIN:
  "dummy_for (E\<lparr>MIN_ELAPSED_TICKS := x\<rparr>) s = dummy_for E s"
proof (induction E s rule: dummy_for.induct)
  case (1 E s)
  have call: "call_kernel_dummy (E\<lparr>MIN_ELAPSED_TICKS := x\<rparr>) (len s) s
                = call_kernel_dummy E (len s) s"
    by (simp add: call_kernel_dummy_def)
  show ?case
  proof (cases "p s < passes s")
    case False
    then show ?thesis
      by (simp add: dummy_for.simps [of E s] dummy_for.simps [of "E\<lparr>MIN_ELAPSED_TICKS := x\<rparr>" s])
  next
    case True
    show ?thesis
    proof (cases "call_kernel_dummy E (len s) s")
      case (Inl e)
      with True call show ?thesis
        by (simp add: dummy_for.simps [of E s] dummy_for.simps [of "E\<lparr>MIN_ELAPSED_TICKS := x\<rparr>" s])
    next
      case (Inr s1)
      from "1.IH" [OF True Inr] True call Inr show ?thesis
        by (simp add: dummy_for.simps [of E s] dummy_for.simps [of "E\<lparr>MIN_ELAPSED_TICKS := x\<rparr>" s])
    qed
  qed
qed

lemma timer_MIN:
  "start_timer (E\<lparr>MIN_ELAPSED_TICKS := x\<rparr>) = start_timer E"
  "stop_timer (E\<lparr>MIN_ELAPSED_TICKS := x\<rparr>) = stop_timer E"
  by (simp_all add: fun_eq_iff start_timer_def stop_timer_def)

lemma run_benchmark_MIN:
  "run_benchmark k m (E\<lparr>MIN_ELAPSED_TICKS := x\<rparr>) s = run_benchmark k m E s"
  unfolding run_benchmark_def measure_time_def measure_size_def timer_MIN
    real_loop_MIN dummy_loop_MIN kernel_for_MIN dummy_for_MIN
  by (rule refl)

lemma phases_MIN:
  "init_frame m (E\<lparr>MIN_ELAPSED_TICKS := x\<rparr>) c r = init_frame m E c r"
  "snapshot m (E\<lparr>MIN_ELAPSED_TICKS := x\<rparr>) = snapshot m E"
  "controller_writes (E\<lparr>MIN_ELAPSED_TICKS := x\<rparr>) = controller_writes E"
  "set_affinity (E\<lparr>MIN_ELAPSED_TICKS := x\<rparr>) = set_affinity E"
  "boost_priority (E\<lparr>MIN_ELAPSED_TICKS := x\<rparr>) = boost_priority E"
  by (simp_all add: fun_eq_iff init_frame_def snapshot_def controller_writes_def
      set_affinity_def boost_priority_def split: mode.splits)

lemma prologue_MIN:
  "prologue m (E\<lparr>MIN_ELAPSED_TICKS := x\<rparr>) c r = prologue m E c r"
  unfolding prologue_def phases_MIN by (rule refl)

lemma epilogue_MIN:
  "but_warning (epilogue (E\<lparr>MIN_ELAPSED_TICKS := x\<rparr>) s) = but_warning (epilogue E s)"
  by (simp add: but_warning_def epilogue_trace epilogue_res)

lemma run_MIN:
  "map_option (map_sum id but_warning) (run k m (E\<lparr>MIN_ELAPSED_TICKS := x\<rparr>) c r)
     = map_option (map_sum id but_warning) (run k m E c r)"
proof (cases "run_benchmark k m E (prologue m E c r)")
  case None
  then show ?thesis by (simp add: run_def run_benchmark_MIN prologue_MIN)
next
  case (Some y)
  then show ?thesis
    by (cases y) (simp_all add: run_def run_benchmark_MIN prologue_MIN epilogue_MIN)
qed

subsection \<open>The concrete run, evaluated\<close>

lemmas straight_line_defs =
  prologue_def prime_memory_unfold prime_once_def boost_priority_def
  set_affinity_def controller_writes_def snapshot_def init_frame_def
  epilogue_def publish_def store_def revert_priority_def unset_affinity_def
  adjust_and_warn_def start_timer_def stop_timer_def emit_def

lemmas time_based_defs =
  run_def run_benchmark_def measure_time_def real_loop_Suc dummy_loop_Suc
  real_batch_def dummy_batch_def straight_line_defs

lemmas size_based_defs =
  run_def run_benchmark_def measure_size_def kernel_for.simps dummy_for.simps
  call_kernel_def call_kernel_dummy_def straight_line_defs

lemmas example_defs = example_env_def example_config_def example_result_def

lemma example_time_based:
  "\<exists>s. run (Suc 0) USE_TIME_BASED_BENCHMARKS (example_env\<lparr>MIN_ELAPSED_TICKS := x\<rparr>)
         example_config example_result = Some (Inr s)
     \<and> res s = \<lparr>this_adjusted_ticks = 9000, this_elapsed_ticks = 10000,
                 this_elapsed_dummy_ticks = 1000, this_warning = (10000 < x),
                 this_bytes_per_pass = 4096, this_completed = True, this_passes = 256\<rparr>
     \<and> passes s = 256 \<and> p s = 256 \<and> elapsed_ticks s = 10000 \<and> elapsed_dummy_ticks s = 1000
     \<and> target_ticks s = 10000 \<and> mem_array s = 4096 \<and> len s = 64 \<and> cpu_affinity s = 1"
  by (simp add: time_based_defs example_defs uint64_to_double_exact Let_def)

lemma example_env_MIN: "example_env\<lparr>MIN_ELAPSED_TICKS := 10000\<rparr> = example_env"
  by (simp add: example_env_def)

lemma example_time_based_log:
  "run_log (Suc 0) USE_TIME_BASED_BENCHMARKS example_env example_config example_result =
     Some ([AcquireLock True, ReleaseLock, LockThreadToCpu 1 True, BoostPriority True,
            SequentialRead 4096 4160, SequentialRead 4096 4160, SequentialRead 4096 4160,
            SequentialRead 4096 4160, StartTimer 0]
           @ map (\<lambda>a. Kernel 100 a 0) (chase (\<lambda>a. a + 8) 256 4096)
           @ [StopTimer 10000, StartTimer 10500]
           @ map (\<lambda>a. DummyKernel 200 a 0) (chase (\<lambda>a. a + 8) 256 4096)
           @ [StopTimer 11500, UnlockThread, RevertPriority True, AcquireLock True,
              Store F_adjusted_ticks, Store F_elapsed_ticks, Store F_elapsed_dummy_ticks,
              Store F_warning, Store F_bytes_per_pass, Store F_completed, Store F_passes,
              ReleaseLock])"
  by (simp add: run_log_def time_based_defs example_defs uint64_to_double_exact Let_def)

lemma pin_fails_log:
  "run_log (Suc 0) USE_TIME_BASED_BENCHMARKS pin_fails_env example_config example_result =
     Some ([AcquireLock True, ReleaseLock, LockThreadToCpu 1 False, Cerr (FailedToLockThread 1),
            BoostPriority True,
            SequentialRead 4096 4160, SequentialRead 4096 4160, SequentialRead 4096 4160,
            SequentialRead 4096 4160, StartTimer 0]
           @ map (\<lambda>a. Kernel 100 a 0) (chase (\<lambda>a. a + 8) 256 4096)
           @ [StopTimer 10000, StartTimer 10500]
           @ map (\<lambda>a. DummyKernel 200 a 0) (chase (\<lambda>a. a + 8) 256 4096)
           @ [StopTimer 11500, RevertPriority True, AcquireLock True,
              Store F_adjusted_ticks, Store F_elapsed_ticks, Store F_elapsed_dummy_ticks,
              Store F_warning, Store F_bytes_per_pass, Store F_completed, Store F_passes,
              ReleaseLock])"
  by (simp add: run_log_def time_based_defs pin_fails_env_def example_defs uint64_to_double_exact Let_def)

lemma example_publish_fails:
  "\<exists>s. run (Suc 0) USE_TIME_BASED_BENCHMARKS publish_fails_env example_config example_result
          = Some (Inr s)
     \<and> res s = example_result"
  by (simp add: time_based_defs publish_fails_env_def example_defs uint64_to_double_exact Let_def)

lemma example_pin_fails:
  "\<exists>s. run (Suc 0) USE_TIME_BASED_BENCHMARKS pin_fails_env example_config example_result
          = Some (Inr s)
     \<and> cpu_affinity s = 1"
  by (simp add: time_based_defs pin_fails_env_def example_defs uint64_to_double_exact Let_def)

lemma snapshot_fails_log:
  "run_log (Suc 0) USE_TIME_BASED_BENCHMARKS snapshot_fails_env example_config example_result =
     Some [AcquireLock False, LockThreadToCpu 0 True, BoostPriority True,
           SequentialRead 0 0, SequentialRead 0 0, SequentialRead 0 0, SequentialRead 0 0,
           UnlockThread, RevertPriority True, AcquireLock True,
           Store F_adjusted_ticks, Store F_elapsed_ticks, Store F_elapsed_dummy_ticks,
           Store F_warning, Store F_bytes_per_pass, Store F_completed, Store F_passes,
           ReleaseLock]"
  by (simp add: run_log_def time_based_defs snapshot_fails_env_def example_defs
      uint64_to_double_exact Let_def)

lemma example_snapshot_fails:
  "\<exists>s. run (Suc 0) USE_TIME_BASED_BENCHMARKS snapshot_fails_env example_config example_result
          = Some (Inr s)
     \<and> res s = \<lparr>this_adjusted_ticks = 0, this_elapsed_ticks = 0,
                 this_elapsed_dummy_ticks = 0, this_warning = True,
                 this_bytes_per_pass = 0, this_completed = True, this_passes = 0\<rparr>"
  by (simp add: time_based_defs snapshot_fails_env_def example_defs uint64_to_double_exact
      Let_def)

subsection \<open>When a run returns\<close>

text \<open>
  The bound on the number of batches is the only way not to return a value. The loop of
  the real kernel runs out of it exactly when the accumulated ticks stay below the target
  for every number of batches up to the bound.
\<close>

lemma all_le_Suc_shift: "(\<forall>J\<le>Suc k. P J) \<longleftrightarrow> P 0 \<and> (\<forall>J\<le>k. P (Suc J))"
proof
  assume a: "\<forall>J\<le>Suc k. P J"
  then show "P 0 \<and> (\<forall>J\<le>k. P (Suc J))" by auto
next
  assume a: "P 0 \<and> (\<forall>J\<le>k. P (Suc J))"
  show "\<forall>J\<le>Suc k. P J"
  proof (intro allI impI)
    fix J assume "J \<le> Suc k"
    with a show "P J" by (cases J) auto
  qed
qed

lemma real_loop_None_iff:
  "real_loop k E s = None \<longleftrightarrow>
     (\<forall>J\<le>k. elapsed_ticks s + batch_ticks E (clock s) J < target_ticks s)
     \<and> (k = 0 \<or> kernel_fptr s \<noteq> 0)"
proof (induction k arbitrary: s)
  case 0
  show ?case by simp
next
  case (Suc k)
  have fields: "elapsed_ticks (real_batch E s) = elapsed_ticks s + (timer E (clock s + 1) - timer E (clock s))"
    "clock (real_batch E s) = clock s + 2" "target_ticks (real_batch E s) = target_ticks s"
    "kernel_fptr (real_batch E s) = kernel_fptr s"
    by (simp_all add: real_batch_def)
  show ?case
  proof (cases "elapsed_ticks s < target_ticks s \<and> kernel_fptr s \<noteq> 0")
    case False
    then show ?thesis
      by (auto simp: real_loop_Suc all_le_Suc_shift)
  next
    case True
    then have "real_loop (Suc k) E s = real_loop k E (real_batch E s)"
      by (simp add: real_loop_Suc)
    also have "\<dots> = None \<longleftrightarrow>
       (\<forall>J\<le>k. elapsed_ticks s + batch_ticks E (clock s) (Suc J) < target_ticks s)"
      using True by (simp add: Suc.IH fields batch_ticks_Suc_shift add.assoc)
    finally show ?thesis
      using True by (simp add: all_le_Suc_shift)
  qed
qed

lemma real_loop_fuel:
  "real_loop k E s = Some x \<Longrightarrow> real_loop (k + j) E s = Some x"
proof (induction k arbitrary: s)
  case 0
  then show ?case by (cases j) (auto simp: real_loop_Suc split: if_splits)
next
  case (Suc k)
  then show ?case by (auto simp: real_loop_Suc split: if_splits)
qed

lemma dummy_loop_fuel:
  "dummy_loop k E s = Some x \<Longrightarrow> dummy_loop (k + j) E s = Some x"
proof (induction k arbitrary: s)
  case 0
  then show ?case by (cases j) (auto simp: dummy_loop_Suc split: if_splits)
next
  case (Suc k)
  then show ?case by (auto simp: dummy_loop_Suc split: if_splits)
qed

lemma run_fuel:
  assumes "run k m E c r = Some x"
  shows "run (k + j) m E c r = Some x"
proof (cases m)
  case USE_SIZE_BASED_BENCHMARKS
  with assms show ?thesis by (simp add: run_def run_benchmark_def)
next
  case USE_TIME_BASED_BENCHMARKS
  let ?s0 = "prologue USE_TIME_BASED_BENCHMARKS E c r"
  from assms USE_TIME_BASED_BENCHMARKS obtain y where
    b: "measure_time k E ?s0 = Some y"
    by (auto simp: run_def run_benchmark_def split: option.splits)
  have "measure_time (k + j) E ?s0 = Some y"
  proof (cases "real_loop k E (?s0\<lparr>next_address := mem_array ?s0\<rparr>)")
    case None
    with b show ?thesis by (simp add: measure_time_def)
  next
    case (Some z)
    note r1 = real_loop_fuel [OF Some, of j]
    show ?thesis
    proof (cases z)
      case (Inl e)
      with b Some r1 show ?thesis by (auto simp: measure_time_def)
    next
      case (Inr s1)
      with b Some have "dummy_loop k E (s1\<lparr>next_address := mem_array s1\<rparr>) = Some y"
        by (simp add: measure_time_def)
      from dummy_loop_fuel [OF this, of j] Inr r1 show ?thesis
        by (simp add: measure_time_def)
    qed
  qed
  with assms USE_TIME_BASED_BENCHMARKS b show ?thesis
    by (simp add: run_def run_benchmark_def)
qed

lemma run_returns:
  "run k USE_SIZE_BASED_BENCHMARKS E c r \<noteq> None"
  "run k USE_TIME_BASED_BENCHMARKS E c r = None \<longleftrightarrow>
     (\<forall>J\<le>k. batch_ticks E 0 J < g_ticks_per_sec E * BENCHMARK_DURATION_SEC E)
     \<and> (k = 0 \<or> kernel_fptr (prologue USE_TIME_BASED_BENCHMARKS E c r) \<noteq> 0)"
proof -
  show "run k USE_SIZE_BASED_BENCHMARKS E c r \<noteq> None"
    by (simp add: run_def run_benchmark_def split: sum.splits)
  let ?s0 = "prologue USE_TIME_BASED_BENCHMARKS E c r"
  have "run k USE_TIME_BASED_BENCHMARKS E c r = None \<longleftrightarrow> measure_time k E ?s0 = None"
    by (simp add: run_def run_benchmark_def split: option.splits sum.splits)
  also have "\<dots> \<longleftrightarrow> real_loop k E (?s0\<lparr>next_address := mem_array ?s0\<rparr>) = None"
    by (rule measure_time_None) (simp_all add: prologue_fields)
  also have "\<dots> \<longleftrightarrow> (\<forall>J\<le>k. batch_ticks E 0 J < g_ticks_per_sec E * BENCHMARK_DURATION_SEC E)
     \<and> (k = 0 \<or> kernel_fptr ?s0 \<noteq> 0)"
    by (simp add: real_loop_None_iff prologue_fields)
  finally show "run k USE_TIME_BASED_BENCHMARKS E c r = None \<longleftrightarrow>
     (\<forall>J\<le>k. batch_ticks E 0 J < g_ticks_per_sec E * BENCHMARK_DURATION_SEC E)
     \<and> (k = 0 \<or> kernel_fptr ?s0 \<noteq> 0)" .
qed

subsection \<open>The time-based build reads the configuration once\<close>

text \<open>
  After the snapshot the time-based build works on its locals only: a write of the
  controller to the configuration members changes neither the log nor the published
  members of the run.
\<close>

lemma real_loop_cfg:
  "real_loop k E (s\<lparr>cfg := x\<rparr>) = map_option (map_sum id (cfg_update (\<lambda>_. x))) (real_loop k E s)"
proof (induction k arbitrary: s)
  case 0
  show ?case by simp
next
  case (Suc k)
  have "real_batch E (s\<lparr>cfg := x\<rparr>) = (real_batch E s)\<lparr>cfg := x\<rparr>"
    by (simp add: real_batch_def)
  with Suc.IH show ?case by (simp add: real_loop_Suc)
qed

lemma dummy_loop_cfg:
  "dummy_loop k E (s\<lparr>cfg := x\<rparr>) = map_option (map_sum id (cfg_update (\<lambda>_. x))) (dummy_loop k E s)"
proof (induction k arbitrary: s)
  case 0
  show ?case by simp
next
  case (Suc k)
  have "dummy_batch E (s\<lparr>cfg := x\<rparr>) = (dummy_batch E s)\<lparr>cfg := x\<rparr>"
    by (simp add: dummy_batch_def)
  with Suc.IH show ?case by (simp add: dummy_loop_Suc)
qed

lemma measure_time_cfg:
  "measure_time k E (s\<lparr>cfg := x\<rparr>)
     = map_option (map_sum id (cfg_update (\<lambda>_. x))) (measure_time k E s)"
proof -
  have sw: "(t\<lparr>cfg := x\<rparr>)\<lparr>next_address := mem_array (t\<lparr>cfg := x\<rparr>)\<rparr>
              = (t\<lparr>next_address := mem_array t\<rparr>)\<lparr>cfg := x\<rparr>" for t :: frame
    by (cases t) simp
  show ?thesis
  proof (cases "real_loop k E (s\<lparr>next_address := mem_array s\<rparr>)")
    case None
    then show ?thesis
      unfolding measure_time_def sw real_loop_cfg by simp
  next
    case (Some y)
    show ?thesis
    proof (cases y)
      case (Inl e)
      with Some show ?thesis
        unfolding measure_time_def sw real_loop_cfg by simp
    next
      case (Inr s1)
      have sw': "t\<lparr>cfg := x, next_address := a\<rparr> = t\<lparr>next_address := a, cfg := x\<rparr>"
        for t :: frame and a
        by (cases t) simp
      from Inr Some show ?thesis
        unfolding measure_time_def sw real_loop_cfg by (simp add: sw' dummy_loop_cfg)
    qed
  qed
qed

lemma epilogue_cfg: "epilogue E (s\<lparr>cfg := x\<rparr>) = (epilogue E s)\<lparr>cfg := x\<rparr>"
  by (simp add: epilogue_def publish_def store_def revert_priority_def unset_affinity_def
      adjust_and_warn_def emit_def Let_def)

lemma real_loop_controller:
  "real_loop k (E\<lparr>controller := f\<rparr>) s = real_loop k E s"
  by (induction k arbitrary: s) (simp_all add: real_loop_Suc real_batch_def)

lemma dummy_loop_controller:
  "dummy_loop k (E\<lparr>controller := f\<rparr>) s = dummy_loop k E s"
  by (induction k arbitrary: s) (simp_all add: dummy_loop_Suc dummy_batch_def)

lemma measure_time_controller:
  "measure_time k (E\<lparr>controller := f\<rparr>) s = measure_time k E s"
  unfolding measure_time_def real_loop_controller dummy_loop_controller by (rule refl)

lemma epilogue_controller: "epilogue (E\<lparr>controller := f\<rparr>) = epilogue E"
  by (simp add: fun_eq_iff epilogue_def publish_def revert_priority_def adjust_and_warn_def)

lemma prologue_controller:
  "prologue m (E\<lparr>controller := f\<rparr>) c r = (prologue m E c r)\<lparr>cfg := f c\<rparr>"
proof -
  let ?s = "snapshot m E (init_frame m E c r)"
  have a: "init_frame m (E\<lparr>controller := f\<rparr>) c r = init_frame m E c r"
    "snapshot m (E\<lparr>controller := f\<rparr>) = snapshot m E"
    by (simp_all add: fun_eq_iff init_frame_def snapshot_def split: mode.splits)
  have b: "cfg ?s = c"
    by (simp add: init_frame_def snapshot_def emit_def Let_def split: mode.splits)
  have c1: "controller_writes (E\<lparr>controller := f\<rparr>) ?s = (controller_writes E ?s)\<lparr>cfg := f c\<rparr>"
    by (simp add: controller_writes_def b)
  have d: "set_affinity (E\<lparr>controller := f\<rparr>) (t\<lparr>cfg := x\<rparr>) = (set_affinity E t)\<lparr>cfg := x\<rparr>"
    "boost_priority (E\<lparr>controller := f\<rparr>) (t\<lparr>cfg := x\<rparr>) = (boost_priority E t)\<lparr>cfg := x\<rparr>"
    "prime_memory (t\<lparr>cfg := x\<rparr>) = (prime_memory t)\<lparr>cfg := x\<rparr>" for t x
    by (simp_all add: set_affinity_def boost_priority_def prime_memory_unfold prime_once_def
        emit_def Let_def)
  show ?thesis
    unfolding prologue_def a c1 d by (rule refl)
qed

lemma time_based_ignores_controller:
  "published k USE_TIME_BASED_BENCHMARKS (E\<lparr>controller := f\<rparr>) c r
     = published k USE_TIME_BASED_BENCHMARKS E c r"
  "run_log k USE_TIME_BASED_BENCHMARKS (E\<lparr>controller := f\<rparr>) c r
     = run_log k USE_TIME_BASED_BENCHMARKS E c r"
proof -
  let ?s0 = "prologue USE_TIME_BASED_BENCHMARKS E c r"
  have run: "run k USE_TIME_BASED_BENCHMARKS (E\<lparr>controller := f\<rparr>) c r
         = map_option (map_sum id (cfg_update (\<lambda>_. f c))) (run k USE_TIME_BASED_BENCHMARKS E c r)"
  proof (cases "measure_time k E ?s0")
    case None
    then show ?thesis
      by (simp add: run_def run_benchmark_def prologue_controller measure_time_controller
          measure_time_cfg)
  next
    case (Some y)
    then show ?thesis
      by (cases y)
        (simp_all add: run_def run_benchmark_def prologue_controller measure_time_controller
          measure_time_cfg epilogue_controller epilogue_cfg)
  qed
  show "published k USE_TIME_BASED_BENCHMARKS (E\<lparr>controller := f\<rparr>) c r
     = published k USE_TIME_BASED_BENCHMARKS E c r"
    unfolding published_def run by (auto split: option.splits sum.splits)
  show "run_log k USE_TIME_BASED_BENCHMARKS (E\<lparr>controller := f\<rparr>) c r
     = run_log k USE_TIME_BASED_BENCHMARKS E c r"
    unfolding run_log_def run by (auto split: option.splits sum.splits)
qed

section \<open>The claims\<close>

text \<open>
  C1. For every completed run with \<open>elapsed_dummy_ticks < elapsed_ticks\<close>, the published
  adjusted ticks are the published elapsed ticks minus the published dummy ticks, as
  integers: the subtraction of line 177 does not wrap.
\<close>

theorem adjusted_ticks_exact:
  assumes "run k m E c r = Some (Inr s')"
    and "\<not> this_completed r" and "this_completed (res s')"
    and "this_elapsed_dummy_ticks (res s') < this_elapsed_ticks (res s')"
  shows "uint (this_adjusted_ticks (res s'))
           = uint (this_elapsed_ticks (res s')) - uint (this_elapsed_dummy_ticks (res s'))"
proof -
  from assms(2,3) run_res [OF assms(1)] have pub: "acquire_publish E"
    by (auto split: if_splits)
  with run_res [OF assms(1)] have
    "this_adjusted_ticks (res s') = this_elapsed_ticks (res s') - this_elapsed_dummy_ticks (res s')"
    by simp
  moreover from assms(4) have
    "uint (this_elapsed_dummy_ticks (res s')) \<le> uint (this_elapsed_ticks (res s'))"
    by (simp add: word_less_def)
  ultimately show ?thesis
    by (simp add: uint_sub_if')
qed

theorem adjusted_ticks_exact_witness:
  "\<not> this_completed example_result
   \<and> published (Suc 0) USE_TIME_BASED_BENCHMARKS example_env example_config example_result
       = Some \<lparr>this_adjusted_ticks = 9000, this_elapsed_ticks = 10000,
               this_elapsed_dummy_ticks = 1000, this_warning = False,
               this_bytes_per_pass = 4096, this_completed = True, this_passes = 256\<rparr>
   \<and> (1000 :: u64) < 10000
   \<and> uint (9000 :: u64) = uint (10000 :: u64) - uint (1000 :: u64)"
proof -
  from example_time_based [of 10000] obtain s where
    r: "run (Suc 0) USE_TIME_BASED_BENCHMARKS example_env example_config example_result
          = Some (Inr s)"
    and v: "res s = \<lparr>this_adjusted_ticks = 9000, this_elapsed_ticks = 10000,
                 this_elapsed_dummy_ticks = 1000, this_warning = False,
                 this_bytes_per_pass = 4096, this_completed = True, this_passes = 256\<rparr>"
    unfolding example_env_MIN by auto
  have h: "\<not> this_completed example_result" by (simp add: example_result_def)
  from adjusted_ticks_exact [OF r h] v
  have "uint (9000 :: u64) = uint (10000 :: u64) - uint (1000 :: u64)" by simp
  with r v h show ?thesis by (simp add: published_def)
qed

text \<open>
  C2. Whenever the result is published, the published warning flag says exactly that one
  of the three conditions of line 180 holds, the third one compared in double precision as
  the source does; below \<open>2 ^ 53\<close> ticks that comparison is the exact one. The flag changes
  nothing else: the result is published with the flag set or not, and a run with another
  threshold \<open>MIN_ELAPSED_TICKS\<close> ends the same way, with the same log and the same
  published fields but the flag.
\<close>

theorem warning_iff_fishy:
  assumes "run k m E c r = Some (Inr s')" and "acquire_publish E"
  shows "this_completed (res s')
     \<and> (this_warning (res s') \<longleftrightarrow>
           this_elapsed_ticks (res s') \<le> this_elapsed_dummy_ticks (res s')
         \<or> this_elapsed_ticks (res s') < MIN_ELAPSED_TICKS E
         \<or> uint64_to_double (this_adjusted_ticks (res s'))
              < 0.5 * uint64_to_double (this_elapsed_ticks (res s')))
     \<and> (unat (this_elapsed_ticks (res s')) < 2 ^ 53 \<longrightarrow>
          (this_warning (res s') \<longleftrightarrow>
             this_elapsed_ticks (res s') \<le> this_elapsed_dummy_ticks (res s')
           \<or> this_elapsed_ticks (res s') < MIN_ELAPSED_TICKS E
           \<or> real (unat (this_adjusted_ticks (res s')))
                < 0.5 * real (unat (this_elapsed_ticks (res s')))))
     \<and> map_option (map_sum id but_warning) (run k m (E\<lparr>MIN_ELAPSED_TICKS := x\<rparr>) c r)
           = Some (Inr (but_warning s'))"
proof -
  let ?e = "this_elapsed_ticks (res s')" and ?d = "this_elapsed_dummy_ticks (res s')"
    and ?a = "this_adjusted_ticks (res s')"
  from run_res [OF assms(1)] assms(2) have
    pub: "this_completed (res s')" "?a = ?e - ?d" "this_warning (res s') = fishy E ?e ?d ?a"
    by simp_all
  have exact: "uint64_to_double ?a < 0.5 * uint64_to_double ?e
                 \<longleftrightarrow> real (unat ?a) < 0.5 * real (unat ?e)"
    if small: "unat ?e < 2 ^ 53" and lt: "\<not> ?e \<le> ?d"
  proof -
    from lt have "unat ?d \<le> unat ?e" by (simp add: word_le_nat_alt)
    then have "unat ?a = unat ?e - unat ?d"
      unfolding pub(2) by (simp add: unat_sub word_le_nat_alt)
    with small have "unat ?a < 2 ^ 53" by simp
    with small show ?thesis by (simp add: uint64_to_double_exact)
  qed
  have "map_option (map_sum id but_warning) (run k m (E\<lparr>MIN_ELAPSED_TICKS := x\<rparr>) c r)
          = Some (Inr (but_warning s'))"
    by (simp add: run_MIN assms(1))
  with pub exact show ?thesis
    by (auto simp: fishy_def)
qed

theorem warning_iff_fishy_witness:
  "acquire_publish example_env
   \<and> published (Suc 0) USE_TIME_BASED_BENCHMARKS example_env example_config example_result
       = Some \<lparr>this_adjusted_ticks = 9000, this_elapsed_ticks = 10000,
               this_elapsed_dummy_ticks = 1000, this_warning = False,
               this_bytes_per_pass = 4096, this_completed = True, this_passes = 256\<rparr>
   \<and> (False \<longleftrightarrow> (10000 :: u64) \<le> 1000 \<or> (10000 :: u64) < MIN_ELAPSED_TICKS example_env
                   \<or> uint64_to_double 9000 < 0.5 * uint64_to_double 10000)
   \<and> unat (10000 :: u64) < 2 ^ 53
   \<and> (False \<longleftrightarrow> (10000 :: u64) \<le> 1000 \<or> (10000 :: u64) < MIN_ELAPSED_TICKS example_env
                   \<or> real (unat (9000 :: u64)) < 0.5 * real (unat (10000 :: u64)))
   \<and> published (Suc 0) USE_TIME_BASED_BENCHMARKS (example_env\<lparr>MIN_ELAPSED_TICKS := 20000\<rparr>)
         example_config example_result
       = Some \<lparr>this_adjusted_ticks = 9000, this_elapsed_ticks = 10000,
               this_elapsed_dummy_ticks = 1000, this_warning = True,
               this_bytes_per_pass = 4096, this_completed = True, this_passes = 256\<rparr>
   \<and> run_log (Suc 0) USE_TIME_BASED_BENCHMARKS (example_env\<lparr>MIN_ELAPSED_TICKS := 20000\<rparr>)
         example_config example_result
       = run_log (Suc 0) USE_TIME_BASED_BENCHMARKS example_env example_config example_result"
proof -
  from example_time_based [of 10000] obtain s where
    r: "run (Suc 0) USE_TIME_BASED_BENCHMARKS example_env example_config example_result
          = Some (Inr s)"
    and v: "res s = \<lparr>this_adjusted_ticks = 9000, this_elapsed_ticks = 10000,
                 this_elapsed_dummy_ticks = 1000, this_warning = False,
                 this_bytes_per_pass = 4096, this_completed = True, this_passes = 256\<rparr>"
    unfolding example_env_MIN by auto
  from example_time_based [of 20000] obtain s2 where
    r2: "run (Suc 0) USE_TIME_BASED_BENCHMARKS (example_env\<lparr>MIN_ELAPSED_TICKS := 20000\<rparr>)
           example_config example_result = Some (Inr s2)"
    and v2: "res s2 = \<lparr>this_adjusted_ticks = 9000, this_elapsed_ticks = 10000,
                 this_elapsed_dummy_ticks = 1000, this_warning = True,
                 this_bytes_per_pass = 4096, this_completed = True, this_passes = 256\<rparr>"
    by auto
  have h: "acquire_publish example_env" by (simp add: example_env_def)
  have small: "unat (10000 :: u64) < 2 ^ 53" by simp
  note w = warning_iff_fishy [OF r h, of 20000]
  from w v small
  have "(False \<longleftrightarrow> (10000 :: u64) \<le> 1000 \<or> (10000 :: u64) < MIN_ELAPSED_TICKS example_env
                   \<or> uint64_to_double 9000 < 0.5 * uint64_to_double 10000)"
    and "(False \<longleftrightarrow> (10000 :: u64) \<le> 1000 \<or> (10000 :: u64) < MIN_ELAPSED_TICKS example_env
                   \<or> real (unat (9000 :: u64)) < 0.5 * real (unat (10000 :: u64)))"
    by simp_all
  moreover from w r2 have "trace s2 = trace s"
    by (simp add: but_warning_def)
  ultimately show ?thesis
    using r v r2 v2 h small by (simp add: published_def run_log_def)
qed

text \<open>
  C3. In the time-based build the recorded pass count is a multiple of 256, and the
  accumulated ticks of the real kernel have reached the target when its loop is left;
  they are the ticks of the \<open>J\<close> batches that were run.
\<close>

theorem time_based_passes_and_target:
  assumes "run k USE_TIME_BASED_BENCHMARKS E c r = Some (Inr s')"
  shows "256 dvd unat (passes s')
     \<and> target_ticks s' = g_ticks_per_sec E * BENCHMARK_DURATION_SEC E
     \<and> target_ticks s' \<le> elapsed_ticks s'
     \<and> (\<exists>J\<le>k. passes s' = 256 * of_nat J \<and> elapsed_ticks s' = batch_ticks E 0 J)
     \<and> (acquire_publish E \<longrightarrow>
          this_passes (res s') = passes s' \<and> this_elapsed_ticks (res s') = elapsed_ticks s')"
proof -
  let ?s0 = "prologue USE_TIME_BASED_BENCHMARKS E c r"
  from assms obtain s where b: "measure_time k E ?s0 = Some (Inr s)" and e: "s' = epilogue E s"
    by (auto simp: run_def run_benchmark_def split: option.splits sum.splits)
  from measure_time_Inr [OF b] obtain J where J: "J \<le> k"
    and k: "kept s = kept ?s0" and ps: "passes s = 256 * of_nat J"
    and el: "elapsed_ticks s = batch_ticks E 0 J" and ex: "\<not> elapsed_ticks s < target_ticks s"
    by (auto simp: prologue_fields)
  from k have tg: "target_ticks s = g_ticks_per_sec E * BENCHMARK_DURATION_SEC E"
    by (simp add: kept_def prologue_fields)
  have "256 dvd unat (passes s')"
    unfolding e by (simp add: epilogue_fields ps dvd_unat_times_256)
  moreover have "target_ticks s' = g_ticks_per_sec E * BENCHMARK_DURATION_SEC E"
    unfolding e by (simp add: epilogue_fields tg)
  moreover have "target_ticks s' \<le> elapsed_ticks s'"
    unfolding e using ex by (simp add: epilogue_fields)
  moreover have "\<exists>J\<le>k. passes s' = 256 * of_nat J \<and> elapsed_ticks s' = batch_ticks E 0 J"
    unfolding e using J ps el by (auto simp: epilogue_fields)
  moreover have "acquire_publish E \<longrightarrow>
          this_passes (res s') = passes s' \<and> this_elapsed_ticks (res s') = elapsed_ticks s'"
    by (simp add: run_res [OF assms])
  ultimately show ?thesis by blast
qed

theorem time_based_passes_and_target_witness:
  "\<exists>s'. run (Suc 0) USE_TIME_BASED_BENCHMARKS example_env example_config example_result
           = Some (Inr s')
     \<and> passes s' = 256 \<and> 256 dvd unat (passes s')
     \<and> target_ticks s' = 10000 \<and> elapsed_ticks s' = 10000
     \<and> target_ticks s' \<le> elapsed_ticks s'
     \<and> this_passes (res s') = 256 \<and> this_elapsed_ticks (res s') = 10000"
proof -
  from example_time_based [of 10000] obtain s where
    r: "run (Suc 0) USE_TIME_BASED_BENCHMARKS example_env example_config example_result
          = Some (Inr s)"
    and v: "passes s = 256" "target_ticks s = 10000" "elapsed_ticks s = 10000"
    unfolding example_env_MIN by auto
  have h: "acquire_publish example_env" by (simp add: example_env_def)
  from time_based_passes_and_target [OF r] h v
  have "256 dvd unat (passes s)" "target_ticks s \<le> elapsed_ticks s"
    "this_passes (res s) = 256" "this_elapsed_ticks (res s) = 10000"
    by simp_all
  with r v show ?thesis by blast
qed

text \<open>
  C4. The size-based build subtracts the other way round (lines 166 and 174): the elapsed
  ticks are the reading before the counted iterations minus the reading after them. With
  the timer reading 0 and 10000 around the real kernel and 10500 and 11500 around the
  dummy, the published elapsed ticks are \<open>0 - 10000\<close> and \<open>10500 - 11500\<close> modulo \<open>2 ^ 64\<close>,
  not 10000 and 1000.
\<close>

theorem size_based_elapsed_wraps:
  "timer example_env 0 = 0 \<and> timer example_env 1 = 10000
   \<and> timer example_env 2 = 10500 \<and> timer example_env 3 = 11500
   \<and> published 0 USE_SIZE_BASED_BENCHMARKS example_env example_config example_result
       = Some \<lparr>this_adjusted_ticks = 18446744073709542616,
               this_elapsed_ticks = 18446744073709541616,
               this_elapsed_dummy_ticks = 18446744073709550616, this_warning = True,
               this_bytes_per_pass = 4096, this_completed = True, this_passes = 2\<rparr>
   \<and> (18446744073709541616 :: u64) = 0 - 10000
   \<and> (18446744073709550616 :: u64) = 10500 - 11500"
  by (simp add: published_def size_based_defs example_defs Let_def)

text \<open>
  C5. In the time-based build the dummy counter ends at the recorded pass count, and the
  dummy kernel is invoked as many times as that count says; this is the number of
  invocations of the real kernel unless that number has wrapped the 64-bit counter. Both
  kernels are timed in whole batches of 256: the elapsed ticks are the ticks of the
  batches of the real kernel, the dummy elapsed ticks those of the batches that follow.
\<close>

theorem dummy_passes_equal_recorded:
  assumes "run k USE_TIME_BASED_BENCHMARKS E c r = Some (Inr s')"
  shows "p s' = passes s'
     \<and> length (filter is_dummy (trace s')) = unat (passes s')
     \<and> (length (filter is_kernel (trace s')) < 2 ^ 64 \<longrightarrow>
          length (filter is_dummy (trace s')) = length (filter is_kernel (trace s')))
     \<and> 256 dvd length (filter is_kernel (trace s'))
     \<and> 256 dvd length (filter is_dummy (trace s'))
     \<and> elapsed_ticks s' = batch_ticks E 0 (length (filter is_kernel (trace s')) div 256)
     \<and> elapsed_dummy_ticks s' =
          batch_ticks E (2 * (length (filter is_kernel (trace s')) div 256))
            (length (filter is_dummy (trace s')) div 256)"
proof -
  let ?s0 = "prologue USE_TIME_BASED_BENCHMARKS E c r"
  from assms obtain s where b: "measure_time k E ?s0 = Some (Inr s)" and e: "s' = epilogue E s"
    by (auto simp: run_def run_benchmark_def split: option.splits sum.splits)
  from measure_time_Inr [OF b] obtain J evs where
        ps: "passes s = 256 * of_nat J" and pp: "p s = passes s"
    and el: "elapsed_ticks s = batch_ticks E 0 J"
    and ed: "elapsed_dummy_ticks s = batch_ticks E (2 * J) (unat (passes s) div 256)"
    and tr: "trace s = trace ?s0 @ evs"
    and nk: "length (filter is_kernel evs) = 256 * J"
    and nd: "length (filter is_dummy evs) = unat (passes s)"
    by (auto simp: prologue_fields)
  from prologue_trace [of USE_TIME_BASED_BENCHMARKS E c r] obtain pre where
    tr0: "trace ?s0 = pre @ replicate 4 (SequentialRead (mem_array ?s0) (mem_array ?s0 + len ?s0))"
    and pre: "\<forall>e\<in>set pre. \<not> is_measurement e"
    by blast
  have pre': "filter is_kernel pre = []" "filter is_dummy pre = []"
    using pre by (auto simp: filter_empty_conv is_measurement_def)
  have K: "length (filter is_kernel (trace s')) = 256 * J"
    unfolding e by (simp add: epilogue_trace tr tr0 pre' nk)
  have D: "length (filter is_dummy (trace s')) = unat (passes s')"
    unfolding e by (simp add: epilogue_trace epilogue_fields tr tr0 pre' nd)
  have wrap: "unat (passes s') = 256 * J" if "256 * J < (2::nat) ^ 64"
    using that unfolding e by (simp add: epilogue_fields ps unat_word_ariths unat_of_nat)
  have "p s' = passes s'"
    unfolding e by (simp add: epilogue_fields pp)
  moreover note D
  moreover have "length (filter is_kernel (trace s')) < 2 ^ 64 \<longrightarrow>
          length (filter is_dummy (trace s')) = length (filter is_kernel (trace s'))"
    using K D wrap by simp
  moreover have "256 dvd length (filter is_kernel (trace s'))"
    using K by simp
  moreover have "256 dvd length (filter is_dummy (trace s'))"
  proof -
    have "256 dvd unat (passes s')"
      unfolding e by (simp add: epilogue_fields ps dvd_unat_times_256)
    then show ?thesis by (simp only: D)
  qed
  moreover have "elapsed_ticks s' = batch_ticks E 0 (length (filter is_kernel (trace s')) div 256)"
  proof -
    have "elapsed_ticks s' = batch_ticks E 0 J"
      unfolding e by (simp add: epilogue_fields el)
    then show ?thesis by (simp add: K)
  qed
  moreover have "elapsed_dummy_ticks s' =
          batch_ticks E (2 * (length (filter is_kernel (trace s')) div 256))
            (length (filter is_dummy (trace s')) div 256)"
  proof -
    have "elapsed_dummy_ticks s' = batch_ticks E (2 * J) (unat (passes s') div 256)"
      unfolding e by (simp add: epilogue_fields ed)
    then show ?thesis by (simp add: K D)
  qed
  ultimately show ?thesis by blast
qed

theorem dummy_passes_equal_recorded_witness:
  "\<exists>s'. run (Suc 0) USE_TIME_BASED_BENCHMARKS example_env example_config example_result
           = Some (Inr s')
     \<and> passes s' = 256 \<and> p s' = 256
     \<and> length (filter is_dummy (trace s')) = 256
     \<and> length (filter is_kernel (trace s')) = 256
     \<and> length (filter is_kernel (trace s')) < 2 ^ 64
     \<and> elapsed_ticks s' = batch_ticks example_env 0 1
     \<and> elapsed_dummy_ticks s' = batch_ticks example_env 2 1"
proof -
  from example_time_based [of 10000] obtain s where
    r: "run (Suc 0) USE_TIME_BASED_BENCHMARKS example_env example_config example_result
          = Some (Inr s)"
    and v: "passes s = 256"
    unfolding example_env_MIN by auto
  note c = dummy_passes_equal_recorded [OF r]
  from c v have d: "p s = 256" "length (filter is_dummy (trace s)) = 256"
    by simp_all
  from r example_time_based_log have "length (filter is_kernel (trace s)) = 256"
    by (simp add: run_log_def o_def)
  with c d have "elapsed_ticks s = batch_ticks example_env 0 1"
    "elapsed_dummy_ticks s = batch_ticks example_env 2 1"
    by simp_all
  with r v d \<open>length (filter is_kernel (trace s)) = 256\<close> show ?thesis
    by (intro exI [of _ s]) simp
qed

text \<open>
  C6. In the size-based build the dummy kernel starts at the member \<^verbatim>\<open>_mem_array\<close> as it
  is when line 169 runs, not at a value frozen with the snapshot: two runs with the same
  configuration at the snapshot, one of them with the controller writing the member
  afterwards, invoke the dummy kernel at different addresses.
\<close>

theorem dummy_kernel_reads_shared_mem_array:
  "controller example_env example_config = example_config
   \<and> controller moved_env example_config = example_config\<lparr>this_mem_array := 8192\<rparr>
   \<and> run_log 0 USE_SIZE_BASED_BENCHMARKS example_env example_config example_result =
       Some [AcquireLock True, ReleaseLock, LockThreadToCpu 1 True, BoostPriority True,
             SequentialRead 4096 4160, SequentialRead 4096 4160, SequentialRead 4096 4160,
             SequentialRead 4096 4160,
             StartTimer 0, Kernel 100 4096 64, Kernel 100 4104 64, StopTimer 10000,
             StartTimer 10500, DummyKernel 200 4096 64, DummyKernel 200 4104 64,
             StopTimer 11500,
             UnlockThread, RevertPriority True, AcquireLock True,
             Store F_adjusted_ticks, Store F_elapsed_ticks, Store F_elapsed_dummy_ticks,
             Store F_warning, Store F_bytes_per_pass, Store F_completed, Store F_passes,
             ReleaseLock]
   \<and> run_log 0 USE_SIZE_BASED_BENCHMARKS moved_env example_config example_result =
       Some [AcquireLock True, ReleaseLock, LockThreadToCpu 1 True, BoostPriority True,
             SequentialRead 4096 4160, SequentialRead 4096 4160, SequentialRead 4096 4160,
             SequentialRead 4096 4160,
             StartTimer 0, Kernel 100 4096 64, Kernel 100 4104 64, StopTimer 10000,
             StartTimer 10500, DummyKernel 200 8192 64, DummyKernel 200 8200 64,
             StopTimer 11500,
             UnlockThread, RevertPriority True, AcquireLock True,
             Store F_adjusted_ticks, Store F_elapsed_ticks, Store F_elapsed_dummy_ticks,
             Store F_warning, Store F_bytes_per_pass, Store F_completed, Store F_passes,
             ReleaseLock]"
  by (simp add: run_log_def size_based_defs moved_env_def move_region_def example_defs Let_def)

text \<open>
  C7, as amended. After the measurement the priority revert is always attempted, also
  when the boost had failed; the CPU pin is released exactly when pinning had succeeded
  (line 184), right before the revert. Neither happens earlier.
\<close>

theorem revert_always_unpin_when_pinned:
  assumes "run k m E c r = Some (Inr s')"
  shows "(\<exists>pre post. trace s' =
             pre @ (if lock_thread_to_cpu E (cpu_affinity s') then [UnlockThread] else [])
               @ RevertPriority (revertSchedulingPriority E) # post
           \<and> (\<forall>e\<in>set pre. e \<noteq> UnlockThread \<and> \<not> is_revert e)
           \<and> (\<forall>e\<in>set post. e \<noteq> UnlockThread \<and> \<not> is_revert e \<and> \<not> is_measurement e))
     \<and> RevertPriority (revertSchedulingPriority E) \<in> set (trace s')
     \<and> (UnlockThread \<in> set (trace s') \<longleftrightarrow> lock_thread_to_cpu E (cpu_affinity s'))"
proof -
  let ?reads = "replicate 4 (SequentialRead (mem_array s') (mem_array s' + len s'))"
  let ?unpin = "if lock_thread_to_cpu E (cpu_affinity s') then [UnlockThread] else []"
  let ?rv = "RevertPriority (revertSchedulingPriority E)"
  from run_trace [OF assms] obtain pre evs post where
    tr: "trace s' = pre @ ?reads @ evs @ ?unpin @ ?rv # post"
    and pre: "\<forall>e\<in>set pre. \<not> is_revert e \<and> e \<noteq> UnlockThread"
    and ev: "\<forall>e\<in>set evs. is_measurement e"
    and post: "\<forall>e\<in>set post. e \<noteq> UnlockThread \<and> \<not> is_revert e \<and> \<not> is_measurement e"
    by (auto split: if_splits)
  from ev have ev': "\<forall>e\<in>set evs. \<not> is_revert e \<and> e \<noteq> UnlockThread"
    using measurement_is_nothing_else by blast
  have before: "\<forall>e\<in>set (pre @ ?reads @ evs). e \<noteq> UnlockThread \<and> \<not> is_revert e"
    using pre ev' by auto
  have shape: "\<exists>pre post. trace s' = pre @ ?unpin @ ?rv # post
           \<and> (\<forall>e\<in>set pre. e \<noteq> UnlockThread \<and> \<not> is_revert e)
           \<and> (\<forall>e\<in>set post. e \<noteq> UnlockThread \<and> \<not> is_revert e \<and> \<not> is_measurement e)"
    using tr before post
    by (intro exI [of _ "pre @ ?reads @ evs"] exI [of _ post]) simp
  have "?rv \<in> set (trace s')"
    unfolding tr by simp
  moreover have "UnlockThread \<in> set (trace s') \<longleftrightarrow> lock_thread_to_cpu E (cpu_affinity s')"
    unfolding tr using before post by auto
  ultimately show ?thesis using shape by blast
qed

theorem revert_always_unpin_when_pinned_witness:
  "\<exists>s'. run (Suc 0) USE_TIME_BASED_BENCHMARKS pin_fails_env example_config example_result
           = Some (Inr s')
     \<and> \<not> lock_thread_to_cpu pin_fails_env (cpu_affinity s')
     \<and> RevertPriority (revertSchedulingPriority pin_fails_env) \<in> set (trace s')
     \<and> UnlockThread \<notin> set (trace s')"
proof -
  from example_pin_fails obtain s where
    r: "run (Suc 0) USE_TIME_BASED_BENCHMARKS pin_fails_env example_config example_result
          = Some (Inr s)"
    by blast
  have "\<not> lock_thread_to_cpu pin_fails_env (cpu_affinity s)"
    by (simp add: pin_fails_env_def)
  with revert_always_unpin_when_pinned [OF r] r show ?thesis by blast
qed

text \<open>
  As stated, C7 fails: with pinning refused the run returns and its log has no release of
  the pin.
\<close>

theorem unpin_skipped_when_pin_failed:
  "run_log (Suc 0) USE_TIME_BASED_BENCHMARKS pin_fails_env example_config example_result \<noteq> None
   \<and> LockThreadToCpu 1 False
       \<in> set (the (run_log (Suc 0) USE_TIME_BASED_BENCHMARKS pin_fails_env example_config example_result))
   \<and> UnlockThread
       \<notin> set (the (run_log (Suc 0) USE_TIME_BASED_BENCHMARKS pin_fails_env example_config example_result))"
  unfolding pin_fails_log by auto

text \<open>
  C8, as amended. When the lock is acquired at publication, the seven result members are
  written between acquiring and releasing it and nowhere else; \<open>completed\<close> is written
  after the five members before it in the source, and \<open>passes\<close> after \<open>completed\<close>, last
  before the release.
\<close>

theorem publication_under_lock:
  assumes "run k m E c r = Some (Inr s')" and "acquire_publish E"
  shows "(\<exists>pre. trace s' =
            pre @ [AcquireLock True, Store F_adjusted_ticks, Store F_elapsed_ticks,
                   Store F_elapsed_dummy_ticks, Store F_warning, Store F_bytes_per_pass,
                   Store F_completed, Store F_passes, ReleaseLock]
          \<and> (\<forall>e\<in>set pre. \<not> is_store e))
     \<and> res s' = \<lparr>this_adjusted_ticks = adjusted_ticks s', this_elapsed_ticks = elapsed_ticks s',
                  this_elapsed_dummy_ticks = elapsed_dummy_ticks s', this_warning = warning s',
                  this_bytes_per_pass = bytes_per_pass s', this_completed = True,
                  this_passes = passes s'\<rparr>"
proof -
  let ?reads = "replicate 4 (SequentialRead (mem_array s') (mem_array s' + len s'))"
  let ?pub = "[AcquireLock True, Store F_adjusted_ticks, Store F_elapsed_ticks,
               Store F_elapsed_dummy_ticks, Store F_warning, Store F_bytes_per_pass,
               Store F_completed, Store F_passes, ReleaseLock]"
  from run_trace [OF assms(1)] assms(2) obtain pre evs mid where
    tr: "trace s' = pre @ ?reads @ evs @ mid @ ?pub"
    and pre: "\<forall>e\<in>set pre. \<not> is_store e"
    and ev: "\<forall>e\<in>set evs. is_measurement e"
    and mid: "\<forall>e\<in>set mid. \<not> is_store e"
    by (auto split: if_splits)
  from ev have "\<forall>e\<in>set evs. \<not> is_store e"
    using measurement_is_nothing_else by blast
  with pre mid have "\<forall>e\<in>set (pre @ ?reads @ evs @ mid). \<not> is_store e" by auto
  with tr have shape: "\<exists>pre. trace s' = pre @ ?pub \<and> (\<forall>e\<in>set pre. \<not> is_store e)"
    by (intro exI [of _ "pre @ ?reads @ evs @ mid"]) simp
  from run_Inr [OF assms(1)] obtain s where e: "s' = epilogue E s"
    and k: "kept s = kept (prologue m E c r)"
    by blast
  from k have "warning s = False" by (simp add: kept_def prologue_fields)
  then have "res s' = \<lparr>this_adjusted_ticks = adjusted_ticks s', this_elapsed_ticks = elapsed_ticks s',
                  this_elapsed_dummy_ticks = elapsed_dummy_ticks s', this_warning = warning s',
                  this_bytes_per_pass = bytes_per_pass s', this_completed = True,
                  this_passes = passes s'\<rparr>"
    unfolding e using assms(2) by (simp add: epilogue_res epilogue_fields)
  with shape show ?thesis by blast
qed

theorem publication_under_lock_witness:
  "\<exists>s'. run (Suc 0) USE_TIME_BASED_BENCHMARKS example_env example_config example_result
           = Some (Inr s')
     \<and> acquire_publish example_env
     \<and> (\<exists>pre. trace s' =
            pre @ [AcquireLock True, Store F_adjusted_ticks, Store F_elapsed_ticks,
                   Store F_elapsed_dummy_ticks, Store F_warning, Store F_bytes_per_pass,
                   Store F_completed, Store F_passes, ReleaseLock]
          \<and> (\<forall>e\<in>set pre. \<not> is_store e))
     \<and> res s' = \<lparr>this_adjusted_ticks = 9000, this_elapsed_ticks = 10000,
                  this_elapsed_dummy_ticks = 1000, this_warning = False,
                  this_bytes_per_pass = 4096, this_completed = True, this_passes = 256\<rparr>"
proof -
  from example_time_based [of 10000] obtain s where
    r: "run (Suc 0) USE_TIME_BASED_BENCHMARKS example_env example_config example_result
          = Some (Inr s)"
    and v: "res s = \<lparr>this_adjusted_ticks = 9000, this_elapsed_ticks = 10000,
                 this_elapsed_dummy_ticks = 1000, this_warning = False,
                 this_bytes_per_pass = 4096, this_completed = True, this_passes = 256\<rparr>"
    unfolding example_env_MIN by auto
  have h: "acquire_publish example_env" by (simp add: example_env_def)
  from publication_under_lock [OF r h] r v h show ?thesis by blast
qed

text \<open>
  As stated, C8 fails: read backwards, the log of the concrete run ends with the release
  of the lock, the store to \<open>passes\<close> and, before it, the store to \<open>completed\<close>.
\<close>

theorem passes_stored_after_completed:
  "run_log (Suc 0) USE_TIME_BASED_BENCHMARKS example_env example_config example_result \<noteq> None
   \<and> take 3 (rev (the (run_log (Suc 0) USE_TIME_BASED_BENCHMARKS example_env example_config
                         example_result)))
       = [ReleaseLock, Store F_passes, Store F_completed]"
  unfolding example_time_based_log by simp

text \<open>
  C9, as amended. Before any timer reading, and so outside every timed interval, the log
  has exactly four priming reads, all over the same range \<open>[mem_array, mem_array + len)\<close>
  of the locals of the run. In the time-based build these are the configured base and
  length when the lock was acquired at the snapshot, and NULL and 0, an empty range, when
  it was not.
\<close>

theorem priming_before_timing:
  assumes "run k m E c r = Some (Inr s')"
  shows "(\<exists>pre post. trace s' =
             pre @ replicate 4 (SequentialRead (mem_array s') (mem_array s' + len s')) @ post
           \<and> (\<forall>e\<in>set pre. \<not> is_read e \<and> \<not> is_measurement e)
           \<and> (\<forall>e\<in>set post. \<not> is_read e))
     \<and> length (filter is_read (trace s')) = 4
     \<and> (m = USE_TIME_BASED_BENCHMARKS \<and> acquire_snapshot E \<longrightarrow>
          mem_array s' = this_mem_array c \<and> len s' = this_len c)
     \<and> (m = USE_TIME_BASED_BENCHMARKS \<and> \<not> acquire_snapshot E \<longrightarrow>
          mem_array s' = 0 \<and> len s' = 0)"
proof -
  let ?reads = "replicate 4 (SequentialRead (mem_array s') (mem_array s' + len s'))"
  from run_trace [OF assms] obtain pre evs post where
    tr: "trace s' = pre @ ?reads @ evs @ post"
    and pre: "\<forall>e\<in>set pre. \<not> is_measurement e \<and> \<not> is_read e"
    and ev: "\<forall>e\<in>set evs. is_measurement e"
    and post: "\<forall>e\<in>set post. \<not> is_read e"
    by (auto split: if_splits)
  from ev have ev': "\<forall>e\<in>set evs. \<not> is_read e"
    using measurement_is_nothing_else by blast
  have shape: "\<exists>pre post. trace s' = pre @ ?reads @ post
           \<and> (\<forall>e\<in>set pre. \<not> is_read e \<and> \<not> is_measurement e)
           \<and> (\<forall>e\<in>set post. \<not> is_read e)"
    using tr pre ev' post
    by (intro exI [of _ pre] exI [of _ "evs @ post"]) auto
  have "filter is_read pre = []" "filter is_read evs = []" "filter is_read post = []"
    using pre ev' post by (simp_all add: filter_empty_conv)
  then have count: "length (filter is_read (trace s')) = 4"
    unfolding tr by simp
  from run_Inr [OF assms] obtain s where e: "s' = epilogue E s"
    and k: "kept s = kept (prologue m E c r)"
    by blast
  have region: "mem_array s' = this_mem_array c \<and> len s' = this_len c"
    if "m = USE_TIME_BASED_BENCHMARKS" "acquire_snapshot E"
    using k that unfolding e by (simp add: kept_def epilogue_fields prologue_snapshot)
  have empty: "mem_array s' = 0 \<and> len s' = 0"
    if "m = USE_TIME_BASED_BENCHMARKS" "\<not> acquire_snapshot E"
    using k that unfolding e by (simp add: kept_def epilogue_fields prologue_no_snapshot)
  from shape count region empty show ?thesis by blast
qed

theorem priming_before_timing_witness:
  "(\<exists>s'. run (Suc 0) USE_TIME_BASED_BENCHMARKS example_env example_config example_result
           = Some (Inr s')
      \<and> acquire_snapshot example_env
      \<and> mem_array s' = 4096 \<and> len s' = 64
      \<and> this_mem_array example_config = 4096 \<and> this_len example_config = 64
      \<and> length (filter is_read (trace s')) = 4
      \<and> (\<exists>pre post. trace s' = pre @ replicate 4 (SequentialRead 4096 (4096 + 64)) @ post
            \<and> (\<forall>e\<in>set pre. \<not> is_read e \<and> \<not> is_measurement e)
            \<and> (\<forall>e\<in>set post. \<not> is_read e)))
   \<and> (\<exists>s'. run (Suc 0) USE_TIME_BASED_BENCHMARKS snapshot_fails_env example_config
             example_result = Some (Inr s')
      \<and> \<not> acquire_snapshot snapshot_fails_env
      \<and> mem_array s' = 0 \<and> len s' = 0
      \<and> length (filter is_read (trace s')) = 4
      \<and> (\<exists>pre post. trace s' = pre @ replicate 4 (SequentialRead 0 (0 + 0)) @ post
            \<and> (\<forall>e\<in>set pre. \<not> is_read e \<and> \<not> is_measurement e)
            \<and> (\<forall>e\<in>set post. \<not> is_read e)))"
proof -
  from example_time_based [of 10000] obtain s where
    r: "run (Suc 0) USE_TIME_BASED_BENCHMARKS example_env example_config example_result
          = Some (Inr s)"
    unfolding example_env_MIN by auto
  have h: "acquire_snapshot example_env" by (simp add: example_env_def)
  have c: "this_mem_array example_config = 4096" "this_len example_config = 64"
    by (simp_all add: example_config_def)
  from priming_before_timing [OF r] h c
  have m: "mem_array s = 4096" "len s = 64" by simp_all
  from priming_before_timing [OF r] r h c m have first:
    "\<exists>s'. run (Suc 0) USE_TIME_BASED_BENCHMARKS example_env example_config example_result
           = Some (Inr s')
      \<and> acquire_snapshot example_env
      \<and> mem_array s' = 4096 \<and> len s' = 64
      \<and> this_mem_array example_config = 4096 \<and> this_len example_config = 64
      \<and> length (filter is_read (trace s')) = 4
      \<and> (\<exists>pre post. trace s' = pre @ replicate 4 (SequentialRead 4096 (4096 + 64)) @ post
            \<and> (\<forall>e\<in>set pre. \<not> is_read e \<and> \<not> is_measurement e)
            \<and> (\<forall>e\<in>set post. \<not> is_read e))"
    by (intro exI [of _ s]) simp
  from example_snapshot_fails obtain t where
    r': "run (Suc 0) USE_TIME_BASED_BENCHMARKS snapshot_fails_env example_config example_result
          = Some (Inr t)"
    by blast
  have h': "\<not> acquire_snapshot snapshot_fails_env"
    by (simp add: snapshot_fails_env_def example_env_def)
  from priming_before_timing [OF r'] h'
  have m': "mem_array t = 0" "len t = 0" by simp_all
  from priming_before_timing [OF r'] r' h' m' have second:
    "\<exists>s'. run (Suc 0) USE_TIME_BASED_BENCHMARKS snapshot_fails_env example_config
             example_result = Some (Inr s')
      \<and> \<not> acquire_snapshot snapshot_fails_env
      \<and> mem_array s' = 0 \<and> len s' = 0
      \<and> length (filter is_read (trace s')) = 4
      \<and> (\<exists>pre post. trace s' = pre @ replicate 4 (SequentialRead 0 (0 + 0)) @ post
            \<and> (\<forall>e\<in>set pre. \<not> is_read e \<and> \<not> is_measurement e)
            \<and> (\<forall>e\<in>set post. \<not> is_read e))"
    by (intro exI [of _ t]) simp
  from first second show ?thesis by (rule conjI)
qed

text \<open>
  As stated, C9 fails: with the lock refused at the snapshot the locals keep NULL and 0
  (lines 92, 93 and 98), and a run that returns and publishes primes the empty range at 0
  four times; the configured region of 64 bytes at 4096 is never read.
\<close>

theorem priming_misses_region_without_snapshot:
  "this_mem_array example_config = 4096 \<and> this_len example_config = 64
   \<and> published (Suc 0) USE_TIME_BASED_BENCHMARKS snapshot_fails_env example_config
       example_result
       = Some \<lparr>this_adjusted_ticks = 0, this_elapsed_ticks = 0, this_elapsed_dummy_ticks = 0,
               this_warning = True, this_bytes_per_pass = 0, this_completed = True,
               this_passes = 0\<rparr>
   \<and> run_log (Suc 0) USE_TIME_BASED_BENCHMARKS snapshot_fails_env example_config example_result =
       Some [AcquireLock False, LockThreadToCpu 0 True, BoostPriority True,
             SequentialRead 0 0, SequentialRead 0 0, SequentialRead 0 0, SequentialRead 0 0,
             UnlockThread, RevertPriority True, AcquireLock True,
             Store F_adjusted_ticks, Store F_elapsed_ticks, Store F_elapsed_dummy_ticks,
             Store F_warning, Store F_bytes_per_pass, Store F_completed, Store F_passes,
             ReleaseLock]"
proof -
  from example_snapshot_fails have
    "published (Suc 0) USE_TIME_BASED_BENCHMARKS snapshot_fails_env example_config
       example_result
       = Some \<lparr>this_adjusted_ticks = 0, this_elapsed_ticks = 0, this_elapsed_dummy_ticks = 0,
               this_warning = True, this_bytes_per_pass = 0, this_completed = True,
               this_passes = 0\<rparr>"
    by (auto simp: published_def)
  with snapshot_fails_log show ?thesis
    by (simp add: example_config_def)
qed

text \<open>
  C10. When the lock is not acquired at publication, no result member is written: the
  members are those the run started with, the log has no store, and \<open>completed\<close> stays
  false if it was.
\<close>

theorem failed_publish_writes_nothing:
  assumes "run k m E c r = Some (Inr s')" and "\<not> acquire_publish E"
  shows "res s' = r \<and> (\<forall>e\<in>set (trace s'). \<not> is_store e)
     \<and> (\<not> this_completed r \<longrightarrow> \<not> this_completed (res s'))"
proof -
  from run_res [OF assms(1)] assms(2) have r: "res s' = r" by simp
  from run_trace [OF assms(1)] assms(2) obtain pre evs post where
    tr: "trace s' = pre @ replicate 4 (SequentialRead (mem_array s') (mem_array s' + len s'))
           @ evs @ post"
    and pre: "\<forall>e\<in>set pre. \<not> is_store e"
    and ev: "\<forall>e\<in>set evs. is_measurement e"
    and post: "\<forall>e\<in>set post. \<not> is_store e"
    by (auto split: if_splits)
  from ev have "\<forall>e\<in>set evs. \<not> is_store e"
    using measurement_is_nothing_else by blast
  with tr pre post have "\<forall>e\<in>set (trace s'). \<not> is_store e" by auto
  with r show ?thesis by simp
qed

theorem failed_publish_writes_nothing_witness:
  "\<not> acquire_publish publish_fails_env
   \<and> \<not> this_completed example_result
   \<and> published (Suc 0) USE_TIME_BASED_BENCHMARKS publish_fails_env example_config example_result
       = Some example_result
   \<and> (\<exists>s'. run (Suc 0) USE_TIME_BASED_BENCHMARKS publish_fails_env example_config example_result
           = Some (Inr s')
         \<and> \<not> this_completed (res s') \<and> (\<forall>e\<in>set (trace s'). \<not> is_store e))"
proof -
  from example_publish_fails obtain s where
    r: "run (Suc 0) USE_TIME_BASED_BENCHMARKS publish_fails_env example_config example_result
          = Some (Inr s)"
    by blast
  have h: "\<not> acquire_publish publish_fails_env"
    by (simp add: publish_fails_env_def example_env_def)
  have c: "\<not> this_completed example_result" by (simp add: example_result_def)
  from failed_publish_writes_nothing [OF r h] c
  have "res s = example_result" "\<not> this_completed (res s)" "\<forall>e\<in>set (trace s). \<not> is_store e"
    by simp_all
  with r h c show ?thesis by (auto simp: published_def)
qed

end
